theory Spec2Isabelle
  imports Main "HOL-Library.AList"
begin

unbundle bit_operations_syntax

section \<open>The PTY relay supervisor of scripts/claude-auth-pty.py\<close>

text \<open>
  The script allocates a pseudo-terminal, forks, runs \<open>claude auth login\<close> on the slave
  side in the child, and in the parent relays bytes between its own stdio and the master
  side until the child is gone. Everything the script does is a system call, so the model
  is a function from the answers of the operating system to the calls the script issues
  (its \<open>trace\<close>) and the way the process ends. The answers are inputs: one record per
  iteration of the \<open>while\<close> loop, one record for the \<open>finally\<close> block.
\<close>

subsection \<open>Descriptors, bytes, results of system calls\<close>

type_synonym fd = int
type_synonym bytes = string
type_synonym env = "(string \<times> string) list"

text \<open>A call that either raises \<open>OSError\<close> (or a subclass) or returns a value.\<close>

datatype 'a os_result = OSError | Returned 'a

text \<open>\<open>os.kill\<close>: delivered, \<open>ProcessLookupError\<close> (ESRCH) or \<open>PermissionError\<close> (EPERM).\<close>

datatype kill_result = Delivered | ESRCH | EPERM

text \<open>\<open>os.waitpid\<close>: \<open>ChildProcessError\<close> (ECHILD) or the pair \<open>(wpid, status)\<close>.\<close>

datatype waitpid_result = ECHILD | WaitPid int int

text \<open>The exceptions that leave a \<open>try\<close> statement of the script uncaught.\<close>

datatype exn = SystemExit int | ValueError | PermissionError

definition SIGTERM :: int where
  "SIGTERM = 15"

definition WNOHANG :: int where
  "WNOHANG = 1"

text \<open>The wait-status macros of the C library that \<open>os.WIFEXITED\<close> and
  \<open>os.WEXITSTATUS\<close> wrap, and the status of a child that called \<open>_exit(n)\<close>.\<close>

definition WIFEXITED :: "int \<Rightarrow> bool" where
  "WIFEXITED status = (status AND 127 = 0)"

definition WEXITSTATUS :: "int \<Rightarrow> int" where
  "WEXITSTATUS status = drop_bit 8 (status AND 65280)"

definition exit_status :: "int \<Rightarrow> int" where
  "exit_status n = push_bit 8 (n AND 255)"

definition signal_status :: "int \<Rightarrow> int" where
  "signal_status sig = sig AND 127"

subsection \<open>The trace of system calls\<close>

datatype event =
    Setsid
  | Dup2 fd fd
  | Execvpe string "string list" env
  | StderrWrite string
  | OsExit int
  | Close fd "unit os_result"
  | Select "fd list"
  | Read fd
  | Write fd bytes
  | Kill int int kill_result
  | Waitpid int int "waitpid_result option"

text \<open>\<open>Waitpid p opts None\<close> is a wait that never returns.\<close>

fun closes :: "fd \<Rightarrow> event \<Rightarrow> bool" where
  "closes d (Close d' r) = (d' = d)"
| "closes d _ = False"

text \<open>A wait reaps the child when it returns a status for it: with \<open>WNOHANG\<close> a
  returned \<open>wpid\<close> of 0 means the child is still running.\<close>

fun reaped :: "event \<Rightarrow> int list" where
  "reaped (Waitpid p opts (Some (WaitPid wpid status))) =
     (if opts = WNOHANG \<and> wpid = 0 then [] else [status])"
| "reaped _ = []"

definition reaped_statuses :: "event list \<Rightarrow> int list" where
  "reaped_statuses t = concat (map reaped t)"

subsection \<open>What \<open>pty.openpty\<close>, \<open>os.fork\<close> and the \<open>fileno\<close> calls returned\<close>

record cfg =
  master_fd :: fd
  slave_fd :: fd
  stdin_fd :: fd
  stdout_fd :: fd
  pid :: int

subsection \<open>The child branch\<close>

text \<open>
  \<^verbatim>\<open>env = dict(os.environ); env.pop('CLAUDECODE', None); env['TERM'] = 'dumb'\<close>.
  A Python dict keeps insertion order: \<open>pop\<close> drops the key, an assignment overwrites
  in place or appends.
\<close>

definition child_env :: "env \<Rightarrow> env" where
  "child_env environ = AList.update ''TERM'' ''dumb'' (AList.delete ''CLAUDECODE'' environ)"

datatype child_end = Execs | ChildExit int

text \<open>
  The calls before \<open>execvpe\<close> are taken to succeed. \<open>execvpe\<close> either replaces the
  process image (\<open>None\<close>: it does not return) or raises, with \<open>Some e\<close> the text of the
  exception.
\<close>

definition child_branch :: "cfg \<Rightarrow> env \<Rightarrow> string option \<Rightarrow> child_end \<times> event list" where
  "child_branch c environ exec_error =
     (let t = [Setsid, Dup2 (slave_fd c) 0, Dup2 (slave_fd c) 1, Dup2 (slave_fd c) 2,
               Close (master_fd c) (Returned ()), Close (slave_fd c) (Returned ()),
               Execvpe ''claude'' [''claude'', ''auth'', ''login''] (child_env environ)]
      in case exec_error of
           None \<Rightarrow> (Execs, t)
         | Some e \<Rightarrow>
             (ChildExit 1,
              t @ [StderrWrite (''Failed to exec claude: '' @ e @ [CHR 0x0A]), OsExit 1]))"

subsection \<open>The parent branch: state and inputs\<close>

record relay =
  child_alive :: bool
  fds :: "fd list"
  trace :: "event list"

definition emit :: "event \<Rightarrow> relay \<Rightarrow> relay" where
  "emit e s = s\<lparr>trace := trace s @ [e]\<rparr>"

text \<open>
  The answers of the operating system during one iteration. A SIGTERM is taken to arrive
  while the process waits in \<open>select\<close>, where it spends its time; \<open>sigterm\<close> is then
  the answer to the handler's \<open>os.kill\<close>. \<open>select_result\<close> is the set of ready
  descriptors, or the \<open>ValueError\<close>/\<open>OSError\<close> of the call.
\<close>

record iter =
  sigterm :: "kill_result option"
  select_result :: "fd list os_result"
  master_read :: "bytes os_result"
  stdout_write :: "nat os_result"
  stdin_read :: "bytes os_result"
  master_write :: "nat os_result"
  waitpid_nohang :: waitpid_result

record cleanup_io =
  close_result :: "unit os_result"
  kill_result :: kill_result
  final_wait :: "waitpid_result option"

subsection \<open>The signal handler\<close>

definition sigterm_handler :: "cfg \<Rightarrow> int \<Rightarrow> kill_result \<Rightarrow> relay \<Rightarrow> exn option \<times> relay" where
  "sigterm_handler c sig k s =
     (let s1 = emit (Kill (pid c) SIGTERM k) s
      in case k of
           Delivered \<Rightarrow> (None, s1\<lparr>child_alive := False\<rparr>)
         | ESRCH \<Rightarrow> (None, s1\<lparr>child_alive := False\<rparr>)
         | EPERM \<Rightarrow> (Some PermissionError, s1))"

subsection \<open>The relay loop\<close>

text \<open>\<open>for fd in readable\<close>: the result \<open>None\<close> covers the end of the list and
  \<open>break\<close>; an exception that no \<open>except\<close> clause catches is \<open>Some\<close>.\<close>

fun dispatch :: "cfg \<Rightarrow> iter \<Rightarrow> fd list \<Rightarrow> relay \<Rightarrow> exn option \<times> relay" where
  "dispatch c io [] s = (None, s)"
| "dispatch c io (d # rest) s =
     (if d = master_fd c then
        (let s1 = emit (Read (master_fd c)) s
         in case master_read io of
              OSError \<Rightarrow> (None, s1\<lparr>child_alive := False\<rparr>)
            | Returned r \<Rightarrow>
                (let data = take 4096 r
                 in if data = [] then (None, s1\<lparr>child_alive := False\<rparr>)
                    else (let s2 = emit (Write (stdout_fd c) data) s1
                          in case stdout_write io of
                               OSError \<Rightarrow> (None, s2\<lparr>child_alive := False\<rparr>)
                             | Returned n \<Rightarrow> dispatch c io rest s2)))
      else if d = stdin_fd c then
        (let s1 = emit (Read (stdin_fd c)) s
         in case stdin_read io of
              OSError \<Rightarrow> (None, s1)
            | Returned r \<Rightarrow>
                (let data = take 4096 r
                 in if data = [] then
                      (if stdin_fd c \<in> set (fds s1)
                       then dispatch c io rest (s1\<lparr>fds := remove1 (stdin_fd c) (fds s1)\<rparr>)
                       else (Some ValueError, s1))
                    else (let s2 = emit (Write (master_fd c) data) s1
                          in case master_write io of
                               OSError \<Rightarrow> (None, s2)
                             | Returned n \<Rightarrow> dispatch c io rest s2)))
      else dispatch c io rest s)"

datatype flow = Next | Break | Raise exn

text \<open>The non-blocking check for the child at the end of an iteration.\<close>

definition check_child :: "cfg \<Rightarrow> iter \<Rightarrow> relay \<Rightarrow> flow \<times> relay" where
  "check_child c io s =
     (let s1 = emit (Waitpid (pid c) WNOHANG (Some (waitpid_nohang io))) s
      in case waitpid_nohang io of
           ECHILD \<Rightarrow> (Break, s1\<lparr>child_alive := False\<rparr>)
         | WaitPid wpid status \<Rightarrow>
             if wpid \<noteq> 0 then
               (Raise (SystemExit (if WIFEXITED status then WEXITSTATUS status else 1)),
                s1\<lparr>child_alive := False\<rparr>)
             else (Next, s1))"

text \<open>A SIGTERM that arrives while \<open>select\<close> waits runs the handler there.\<close>

definition interrupted :: "cfg \<Rightarrow> iter \<Rightarrow> relay \<Rightarrow> exn option \<times> relay" where
  "interrupted c io s =
     (case sigterm io of
        None \<Rightarrow> (None, s)
      | Some k \<Rightarrow> sigterm_handler c SIGTERM k s)"

text \<open>The body of the \<open>while\<close> loop. A handler that raises does so out of
  \<open>select.select\<close>, and \<open>PermissionError\<close> is an \<open>OSError\<close>, so the loop breaks.
  \<open>select\<close> returns the ready descriptors among \<open>fds\<close>, in the order of \<open>fds\<close>.\<close>

definition iteration :: "cfg \<Rightarrow> iter \<Rightarrow> relay \<Rightarrow> flow \<times> relay" where
  "iteration c io s =
     (let s0 = s\<lparr>fds := [master_fd c, stdin_fd c]\<rparr>;
          s1 = emit (Select (fds s0)) s0
      in case interrupted c io s1 of
           (Some e, s2) \<Rightarrow> (Break, s2)
         | (None, s2) \<Rightarrow>
             (case select_result io of
                OSError \<Rightarrow> (Break, s2)
              | Returned ready \<Rightarrow>
                  (let readable = filter (\<lambda>d. d \<in> set ready) (fds s2)
                   in case dispatch c io readable s2 of
                        (Some e, s3) \<Rightarrow> (Raise e, s3)
                      | (None, s3) \<Rightarrow> check_child c io s3)))"

text \<open>\<open>while child_alive\<close> over the recorded iterations. \<open>Running\<close>: the loop has
  not ended within them. \<open>Ended p\<close>: the loop is left, with the pending exception \<open>p\<close>.\<close>

datatype loop_result = Running relay | Ended "exn option" relay

fun relay_loop :: "cfg \<Rightarrow> iter list \<Rightarrow> relay \<Rightarrow> loop_result" where
  "relay_loop c [] s = (if child_alive s then Running s else Ended None s)"
| "relay_loop c (io # rest) s =
     (if \<not> child_alive s then Ended None s
      else case iteration c io s of
             (Next, s') \<Rightarrow> relay_loop c rest s'
           | (Break, s') \<Rightarrow> Ended None s'
           | (Raise e, s') \<Rightarrow> Ended (Some e) s')"

subsection \<open>The \<open>finally\<close> block and the exit code\<close>

datatype outcome = Relaying | Blocked | Exit int

text \<open>How the interpreter ends: \<open>main\<close> returned (0), \<open>SystemExit(n)\<close>, or a
  traceback (1).\<close>

fun finish :: "exn option \<Rightarrow> outcome" where
  "finish None = Exit 0"
| "finish (Some (SystemExit n)) = Exit n"
| "finish (Some _) = Exit 1"

definition cleanup :: "cfg \<Rightarrow> cleanup_io \<Rightarrow> exn option \<Rightarrow> relay \<Rightarrow> outcome \<times> event list" where
  "cleanup c cio pending s =
     (let s1 = (case close_result cio of
                  OSError \<Rightarrow> emit (Close (master_fd c) OSError) s
                | Returned u \<Rightarrow> emit (Close (master_fd c) (Returned u)) s);
          s2 = (case kill_result cio of
                  Delivered \<Rightarrow> emit (Kill (pid c) SIGTERM Delivered) s1
                | ESRCH \<Rightarrow> emit (Kill (pid c) SIGTERM ESRCH) s1
                | EPERM \<Rightarrow> emit (Kill (pid c) SIGTERM EPERM) s1);
          s3 = emit (Waitpid (pid c) 0 (final_wait cio)) s2
      in case final_wait cio of
           None \<Rightarrow> (Blocked, trace s3)
         | Some ECHILD \<Rightarrow> (finish pending, trace s3)
         | Some (WaitPid wpid status) \<Rightarrow>
             (if WIFEXITED status then finish (Some (SystemExit (WEXITSTATUS status)))
              else finish pending,
              trace s3))"

definition initial :: "cfg \<Rightarrow> relay" where
  "initial c = \<lparr>child_alive = True, fds = [], trace = [Close (slave_fd c) (Returned ())]\<rparr>"

text \<open>The parent branch, from \<open>os.close(slave_fd)\<close> (taken to succeed) to the end of
  the process.\<close>

definition supervisor :: "cfg \<Rightarrow> iter list \<Rightarrow> cleanup_io \<Rightarrow> outcome \<times> event list" where
  "supervisor c script cio =
     (case relay_loop c script (initial c) of
        Running s \<Rightarrow> (Relaying, trace s)
      | Ended pending s \<Rightarrow> cleanup c cio pending s)"

datatype run = Child "child_end \<times> event list" | Parent "outcome \<times> event list"

definition main :: "cfg \<Rightarrow> env \<Rightarrow> string option \<Rightarrow> iter list \<Rightarrow> cleanup_io \<Rightarrow> run" where
  "main c environ exec_error script cio =
     (if pid c = 0 then Child (child_branch c environ exec_error)
      else Parent (supervisor c script cio))"

subsection \<open>Example inputs\<close>

text \<open>A run with the master on descriptor 3, the slave on 4, stdin 0, stdout 1 and child
  100; an iteration in which \<open>select\<close> times out and the child is still running;
  a \<open>finally\<close> block in which every call succeeds and the child is found killed by
  SIGTERM.\<close>

definition example_cfg :: cfg where
  "example_cfg = \<lparr>master_fd = 3, slave_fd = 4, stdin_fd = 0, stdout_fd = 1, pid = 100\<rparr>"

definition idle :: iter where
  "idle = \<lparr>sigterm = None, select_result = Returned [], master_read = Returned [],
            stdout_write = Returned 0, stdin_read = Returned [], master_write = Returned 0,
            waitpid_nohang = WaitPid 0 0\<rparr>"

definition killed :: cleanup_io where
  "killed = \<lparr>close_result = Returned (), kill_result = Delivered,
              final_wait = Some (WaitPid 100 15)\<rparr>"

section \<open>Properties\<close>

subsection \<open>Wait statuses\<close>

lemma and_127: "(x::int) AND 127 = take_bit 7 x"
proof -
  have "(127::int) = mask 7" by (simp add: mask_eq_exp_minus_1)
  then show ?thesis by (simp only: take_bit_eq_mask)
qed

lemma and_255: "(x::int) AND 255 = take_bit 8 x"
proof -
  have "(255::int) = mask 8" by (simp add: mask_eq_exp_minus_1)
  then show ?thesis by (simp only: take_bit_eq_mask)
qed

lemma and_65280: "(x::int) AND 65280 = push_bit 8 (take_bit 8 (drop_bit 8 x))"
proof -
  have "(65280::int) = push_bit 8 (mask 8)" by (simp add: mask_eq_exp_minus_1)
  then have "x AND 65280 = x AND push_bit 8 (mask 8)" by (simp only:)
  also have "\<dots> = push_bit 8 (drop_bit 8 x AND mask 8)"
    by (auto simp: bit_eq_iff bit_and_iff bit_push_bit_iff bit_drop_bit_eq bit_mask_iff)
  finally show ?thesis by (simp only: take_bit_eq_mask)
qed

lemma WEXITSTATUS_eq: "WEXITSTATUS s = take_bit 8 (drop_bit 8 s)"
  unfolding WEXITSTATUS_def and_65280 by (simp add: drop_bit_push_bit)

lemma WIFEXITED_eq: "WIFEXITED s = (take_bit 7 s = 0)"
  unfolding WIFEXITED_def and_127 by simp

lemma WIFEXITED_exit_status: "WIFEXITED (exit_status n)"
  unfolding WIFEXITED_eq exit_status_def by (simp add: take_bit_push_bit)

lemma WEXITSTATUS_exit_status: "0 \<le> n \<Longrightarrow> n \<le> 255 \<Longrightarrow> WEXITSTATUS (exit_status n) = n"
  unfolding WEXITSTATUS_eq exit_status_def and_255
  by (simp add: drop_bit_push_bit take_bit_int_eq_self)

lemma WIFEXITED_signal_status: "0 < sig \<Longrightarrow> sig < 127 \<Longrightarrow> \<not> WIFEXITED (signal_status sig)"
  unfolding WIFEXITED_eq signal_status_def and_127
  by (simp add: take_bit_int_eq_self)

subsection \<open>What each part of the loop adds to the trace\<close>

lemma dispatch_closes:
  "dispatch c io rs s = (x, s') \<Longrightarrow> filter (closes d) (trace s') = filter (closes d) (trace s)"
  by (induction c io rs s arbitrary: x s' rule: dispatch.induct)
     (auto simp: emit_def Let_def split: os_result.splits if_splits)

lemma dispatch_reaped:
  "dispatch c io rs s = (x, s') \<Longrightarrow> reaped_statuses (trace s') = reaped_statuses (trace s)"
  by (induction c io rs s arbitrary: x s' rule: dispatch.induct)
     (auto simp: emit_def Let_def reaped_statuses_def split: os_result.splits if_splits)

lemma handler_closes:
  "sigterm_handler c sig k s = (x, s') \<Longrightarrow> filter (closes d) (trace s') = filter (closes d) (trace s)"
  by (auto simp: sigterm_handler_def emit_def Let_def split: kill_result.splits)

lemma handler_reaped:
  "sigterm_handler c sig k s = (x, s') \<Longrightarrow> reaped_statuses (trace s') = reaped_statuses (trace s)"
  by (auto simp: sigterm_handler_def emit_def Let_def reaped_statuses_def split: kill_result.splits)

lemma handler_fds: "sigterm_handler c sig k s = (x, s') \<Longrightarrow> fds s' = fds s"
  by (auto simp: sigterm_handler_def emit_def Let_def split: kill_result.splits)

lemma interrupted_closes:
  "interrupted c io s = (x, s') \<Longrightarrow> filter (closes d) (trace s') = filter (closes d) (trace s)"
  by (auto simp: interrupted_def split: option.splits dest: handler_closes)

lemma interrupted_reaped:
  "interrupted c io s = (x, s') \<Longrightarrow> reaped_statuses (trace s') = reaped_statuses (trace s)"
  by (auto simp: interrupted_def split: option.splits dest: handler_reaped)

lemma interrupted_fds: "interrupted c io s = (x, s') \<Longrightarrow> fds s' = fds s"
  by (auto simp: interrupted_def split: option.splits dest: handler_fds)

lemma dispatch_no_ValueError:
  "dispatch c io rs s = (x, s') \<Longrightarrow>
   count_list rs (stdin_fd c) \<le> count_list (fds s) (stdin_fd c) \<Longrightarrow> x = None"
proof (induction c io rs s arbitrary: x s' rule: dispatch.induct)
  case (1 c io s)
  then show ?case by simp
next
  case (2 c io d rest s)
  have rm: "count_list (remove1 a xs) a = count_list xs a - 1" for a :: int and xs
    by (induction xs) auto
  have pos: "a \<in> set xs \<Longrightarrow> 0 < count_list xs a" for a :: int and xs
    by (induction xs) auto
  show ?case
    using "2.prems" "2.IH"
    by (auto simp: emit_def Let_def rm split: os_result.splits if_splits dest: pos)
qed

lemma check_child_closes:
  "check_child c io s = (x, s') \<Longrightarrow> filter (closes d) (trace s') = filter (closes d) (trace s)"
  by (auto simp: check_child_def emit_def Let_def split: waitpid_result.splits if_splits)

lemma check_child_reaped:
  "check_child c io s = (x, s') \<Longrightarrow>
     (case x of
        Next \<Rightarrow> reaped_statuses (trace s') = reaped_statuses (trace s) \<and> child_alive s' = child_alive s
      | Break \<Rightarrow> reaped_statuses (trace s') = reaped_statuses (trace s)
      | Raise e \<Rightarrow> (\<exists>st. reaped_statuses (trace s') = reaped_statuses (trace s) @ [st]
                      \<and> e = SystemExit (if WIFEXITED st then WEXITSTATUS st else 1)))"
  by (auto simp: check_child_def emit_def Let_def reaped_statuses_def WNOHANG_def
           split: waitpid_result.splits if_splits)

lemma iteration_closes:
  "iteration c io s = (x, s') \<Longrightarrow> filter (closes d) (trace s') = filter (closes d) (trace s)"
  by (auto simp: iteration_def emit_def Let_def
           split: option.splits os_result.splits prod.splits if_splits
           dest!: interrupted_closes [where d = d] dispatch_closes [where d = d]
                  check_child_closes [where d = d])

lemma count_list_filter_le: "count_list (filter P xs) a \<le> count_list xs a"
  by (induction xs) auto

lemma iteration_cases:
  assumes "iteration c io s = (x, s')"
  obtains
    (stop) "x = Break"
      "reaped_statuses (trace s') = reaped_statuses (trace s)"
  | (checked) s3 where "check_child c io s3 = (x, s')"
      "reaped_statuses (trace s3) = reaped_statuses (trace s)"
proof -
  define s1 where "s1 = emit (Select [master_fd c, stdin_fd c]) (s\<lparr>fds := [master_fd c, stdin_fd c]\<rparr>)"
  have r1: "reaped_statuses (trace s1) = reaped_statuses (trace s)"
    and f1: "fds s1 = [master_fd c, stdin_fd c]"
    by (simp_all add: s1_def emit_def reaped_statuses_def)
  obtain raised s2 where h: "interrupted c io s1 = (raised, s2)"
    by (cases "interrupted c io s1")
  have r2: "reaped_statuses (trace s2) = reaped_statuses (trace s)"
    and f2: "fds s2 = [master_fd c, stdin_fd c]"
    using interrupted_reaped [OF h] interrupted_fds [OF h] r1 f1 by simp_all
  show thesis
  proof (cases "raised = None \<and> select_result io \<noteq> OSError")
    case False
    with assms h have "x = Break" "s' = s2"
      unfolding iteration_def s1_def [symmetric] Let_def
      by (auto simp: s1_def [symmetric] split: option.splits os_result.splits)
    with r2 stop show thesis by simp
  next
    case True
    then obtain ready where sel: "select_result io = Returned ready" and nr: "raised = None"
      by (cases "select_result io") auto
    obtain y s3 where d: "dispatch c io (filter (\<lambda>d. d \<in> set ready) (fds s2)) s2 = (y, s3)"
      by (cases "dispatch c io (filter (\<lambda>d. d \<in> set ready) (fds s2)) s2")
    have "y = None"
      by (rule dispatch_no_ValueError [OF d]) (rule count_list_filter_le)
    with assms h sel nr d have "check_child c io s3 = (x, s')"
      unfolding iteration_def Let_def by (simp add: s1_def [symmetric])
    moreover have "reaped_statuses (trace s3) = reaped_statuses (trace s)"
      using dispatch_reaped [OF d] r2 by simp
    ultimately show thesis using checked by blast
  qed
qed

lemma iteration_reaped:
  assumes "iteration c io s = (x, s')"
  shows "case x of
        Next \<Rightarrow> reaped_statuses (trace s') = reaped_statuses (trace s)
      | Break \<Rightarrow> reaped_statuses (trace s') = reaped_statuses (trace s)
      | Raise e \<Rightarrow> (\<exists>st. reaped_statuses (trace s') = reaped_statuses (trace s) @ [st]
                      \<and> e = SystemExit (if WIFEXITED st then WEXITSTATUS st else 1))"
  using assms
proof (cases rule: iteration_cases)
  case stop
  then show ?thesis by simp
next
  case (checked s3)
  from check_child_reaped [OF checked(1)] checked(2) show ?thesis
    by (auto split: flow.splits)
qed

lemma relay_loop_closes:
  "relay_loop c script s = lr \<Longrightarrow>
     (case lr of Running s' \<Rightarrow> filter (closes d) (trace s') = filter (closes d) (trace s)
               | Ended p s' \<Rightarrow> filter (closes d) (trace s') = filter (closes d) (trace s))"
proof (induction script arbitrary: s lr)
  case Nil
  then show ?case by auto
next
  case (Cons io rest)
  show ?case
  proof (cases "child_alive s")
    case False
    with Cons.prems show ?thesis by auto
  next
    case True
    obtain x s1 where it: "iteration c io s = (x, s1)" by (cases "iteration c io s")
    note cl = iteration_closes [OF it, of d]
    show ?thesis
    proof (cases x)
      case Next
      with True it Cons.prems have "relay_loop c rest s1 = lr" by simp
      from Cons.IH [OF this] cl show ?thesis by (auto split: loop_result.splits)
    next
      case Break
      with True it Cons.prems cl show ?thesis by auto
    next
      case (Raise e)
      with True it Cons.prems cl show ?thesis by auto
    qed
  qed
qed

lemma relay_loop_reaped:
  "relay_loop c script s = lr \<Longrightarrow>
     (case lr of
        Running s' \<Rightarrow> reaped_statuses (trace s') = reaped_statuses (trace s)
      | Ended p s' \<Rightarrow>
          p = None \<and> reaped_statuses (trace s') = reaped_statuses (trace s) \<or>
          (\<exists>st. p = Some (SystemExit (if WIFEXITED st then WEXITSTATUS st else 1)) \<and>
                reaped_statuses (trace s') = reaped_statuses (trace s) @ [st]))"
proof (induction script arbitrary: s lr)
  case Nil
  then show ?case by auto
next
  case (Cons io rest)
  show ?case
  proof (cases "child_alive s")
    case False
    with Cons.prems show ?thesis by auto
  next
    case True
    obtain x s1 where it: "iteration c io s = (x, s1)" by (cases "iteration c io s")
    note r = iteration_reaped [OF it]
    show ?thesis
    proof (cases x)
      case Next
      with True it Cons.prems have "relay_loop c rest s1 = lr" by simp
      from Cons.IH [OF this] r Next show ?thesis by (auto split: loop_result.splits)
    next
      case Break
      with True it Cons.prems r show ?thesis by auto
    next
      case (Raise e)
      with True it Cons.prems r show ?thesis by auto
    qed
  qed
qed

lemma reaped_initial: "reaped_statuses (trace (initial c)) = []"
  by (simp add: initial_def reaped_statuses_def)

lemma cleanup_trace:
  "snd (cleanup c cio p s) =
     trace s @ [Close (master_fd c) (close_result cio), Kill (pid c) SIGTERM (kill_result cio),
                Waitpid (pid c) 0 (final_wait cio)]"
  by (simp add: cleanup_def emit_def Let_def
           split: os_result.splits kill_result.splits option.splits waitpid_result.splits)

lemma exit_code_of_reaped:
  assumes run: "supervisor c script cio = (r, t)"
    and once: "reaped_statuses t = [st]"
    and normal: "WIFEXITED st"
    and returns: "final_wait cio \<noteq> None"
  shows "r = Exit (WEXITSTATUS st)"
proof (cases "relay_loop c script (initial c)")
  case (Running s)
  with run have "t = trace s" by (simp add: supervisor_def)
  with relay_loop_reaped [OF Running] once show ?thesis by (simp add: reaped_initial)
next
  case (Ended p s)
  with run have cl: "cleanup c cio p s = (r, t)" by (simp add: supervisor_def)
  then have t: "t = trace s @ [Close (master_fd c) (close_result cio),
      Kill (pid c) SIGTERM (kill_result cio), Waitpid (pid c) 0 (final_wait cio)]"
    using cleanup_trace [of c cio p s] by simp
  from returns obtain w where w: "final_wait cio = Some w" by auto
  from relay_loop_reaped [OF Ended]
  consider (quiet) "p = None" "reaped_statuses (trace s) = []"
    | (caught) st' where "p = Some (SystemExit (if WIFEXITED st' then WEXITSTATUS st' else 1))"
        "reaped_statuses (trace s) = [st']"
    by (auto simp: reaped_initial)
  then show ?thesis
  proof cases
    case quiet
    with once t w have "w = WaitPid (case w of WaitPid a b \<Rightarrow> a) st"
      by (cases w) (auto simp: reaped_statuses_def WNOHANG_def)
    then obtain a where "w = WaitPid a st" by blast
    with cl w normal show ?thesis by (auto simp: cleanup_def Let_def)
  next
    case caught
    with once t w have "w = ECHILD" "st' = st"
      by (cases w; auto simp: reaped_statuses_def WNOHANG_def)+
    with cl w normal caught show ?thesis by (auto simp: cleanup_def Let_def)
  qed
qed

subsection \<open>Liveness flag and child environment\<close>

lemma check_child_alive: "check_child c io s = (x, s') \<Longrightarrow> child_alive s' \<Longrightarrow> child_alive s"
  by (auto simp: check_child_def emit_def Let_def split: waitpid_result.splits if_splits)

lemma relay_loop_dead: "\<not> child_alive s \<Longrightarrow> relay_loop c script s = Ended None s"
  by (cases script) auto

lemma handler_effect:
  "k \<noteq> EPERM \<Longrightarrow>
   sigterm_handler c sig k s =
     (None, s\<lparr>child_alive := False, trace := trace s @ [Kill (pid c) SIGTERM k]\<rparr>)"
  by (cases k) (simp_all add: sigterm_handler_def emit_def)

lemma dispatch_dead: "\<not> child_alive s \<Longrightarrow> \<not> child_alive (snd (dispatch c io rs s))"
  by (induction c io rs s rule: dispatch.induct)
     (simp_all add: emit_def Let_def split: os_result.splits)

lemma dispatch_alive: "dispatch c io rs s = (x, s') \<Longrightarrow> child_alive s' \<Longrightarrow> child_alive s"
  using dispatch_dead [of s c io rs] by auto

lemma child_env_order:
  "filter (\<lambda>p. fst p \<noteq> ''CLAUDECODE'' \<and> fst p \<noteq> ''TERM'') (child_env environ) =
   filter (\<lambda>p. fst p \<noteq> ''CLAUDECODE'' \<and> fst p \<noteq> ''TERM'') environ"
proof -
  have u: "filter (\<lambda>p. fst p \<noteq> a \<and> fst p \<noteq> k) (AList.update k v al) =
           filter (\<lambda>p. fst p \<noteq> a \<and> fst p \<noteq> k) al" for a k :: string and v :: string and al
    by (induction al) auto
  have d: "filter (\<lambda>p. fst p \<noteq> a \<and> fst p \<noteq> k) (AList.delete a al) =
           filter (\<lambda>p. fst p \<noteq> a \<and> fst p \<noteq> k) al" for a k :: string and al :: env
    by (induction al) auto
  show ?thesis unfolding child_env_def by (simp only: u d)
qed

lemma iteration_alive:
  assumes "iteration c io s = (x, s')" and "child_alive s'"
  shows "sigterm io = None \<or> sigterm io = Some EPERM"
proof (rule ccontr)
  assume "\<not> ?thesis"
  then obtain k where k: "sigterm io = Some k" "k \<noteq> EPERM" by (cases "sigterm io") auto
  let ?s1 = "emit (Select [master_fd c, stdin_fd c]) (s\<lparr>fds := [master_fd c, stdin_fd c]\<rparr>)"
  let ?s2 = "?s1\<lparr>child_alive := False, trace := trace ?s1 @ [Kill (pid c) SIGTERM k]\<rparr>"
  have i: "interrupted c io ?s1 = (None, ?s2)"
    using k by (simp add: interrupted_def handler_effect)
  have d2: "\<not> child_alive ?s2" by simp
  show False
  proof (cases "select_result io")
    case OSError
    with assms(1) i have "s' = ?s2" by (simp add: iteration_def Let_def)
    with assms(2) show False by simp
  next
    case (Returned ready)
    obtain y s3 where d: "dispatch c io (filter (\<lambda>d. d \<in> set ready) (fds ?s2)) ?s2 = (y, s3)"
      by (cases "dispatch c io (filter (\<lambda>d. d \<in> set ready) (fds ?s2)) ?s2")
    have d3: "\<not> child_alive s3" using dispatch_alive [OF d] d2 by blast
    show False
    proof (cases y)
      case (Some e)
      with assms(1) i Returned d have "s' = s3" by (simp add: iteration_def Let_def)
      with assms(2) d3 show False by simp
    next
      case None
      with assms(1) i Returned d have "check_child c io s3 = (x, s')"
        by (simp add: iteration_def Let_def)
      from check_child_alive [OF this assms(2)] d3 show False by simp
    qed
  qed
qed

subsection \<open>The trace only grows\<close>

lemma dispatch_trace_mono: "set (trace s) \<subseteq> set (trace (snd (dispatch c io rs s)))"
proof (induction c io rs s rule: dispatch.induct)
  case (1 c io s)
  show ?case by simp
next
  case (2 c io d rest s)
  show ?case
  proof (cases "d = master_fd c")
    case True
    show ?thesis
    proof (cases "master_read io")
      case OSError
      with True show ?thesis by (auto simp: emit_def)
    next
      case (Returned r)
      show ?thesis
      proof (cases "take 4096 r = [] \<or> stdout_write io = OSError")
        case True
        with \<open>d = master_fd c\<close> Returned show ?thesis
          by (auto simp: emit_def Let_def split: os_result.splits)
      next
        case False
        then obtain n where w: "stdout_write io = Returned n" and ne: "take 4096 r \<noteq> []"
          by (cases "stdout_write io") auto
        from "2.IH"(1) [OF True refl Returned refl ne refl w]
        show ?thesis using True Returned w ne by (auto simp: emit_def Let_def)
      qed
    qed
  next
    case False
    note nm = this
    show ?thesis
    proof (cases "d = stdin_fd c")
      case False
      with nm "2.IH"(4) show ?thesis by simp
    next
      case True
      show ?thesis
      proof (cases "stdin_read io")
        case OSError
        with nm True show ?thesis by (auto simp: emit_def)
      next
        case (Returned r)
        show ?thesis
        proof (cases "take 4096 r = []")
          case e: True
          show ?thesis
          proof (cases "stdin_fd c \<in> set (fds (emit (Read (stdin_fd c)) s))")
            case False
            with nm True Returned e show ?thesis by (auto simp: emit_def Let_def)
          next
            case m: True
            from "2.IH"(2) [OF nm True refl Returned refl e m]
            show ?thesis using nm True Returned e m by (auto simp: emit_def Let_def)
          qed
        next
          case ne: False
          show ?thesis
          proof (cases "master_write io")
            case OSError
            with nm True Returned ne show ?thesis by (auto simp: emit_def Let_def)
          next
            case w: (Returned n)
            from "2.IH"(3) [OF nm True refl Returned refl ne refl w]
            show ?thesis using nm True Returned ne w by (auto simp: emit_def Let_def)
          qed
        qed
      qed
    qed
  qed
qed

lemma check_child_trace_mono: "set (trace s) \<subseteq> set (trace (snd (check_child c io s)))"
  by (cases "waitpid_nohang io") (auto simp: check_child_def emit_def Let_def)

lemma iteration_signalled:
  assumes "sigterm io = Some k" and "k \<noteq> EPERM" and "iteration c io s = (x, s')"
  shows "\<not> child_alive s' \<and> Kill (pid c) SIGTERM k \<in> set (trace s')"
proof -
  let ?s1 = "emit (Select [master_fd c, stdin_fd c]) (s\<lparr>fds := [master_fd c, stdin_fd c]\<rparr>)"
  let ?s2 = "?s1\<lparr>child_alive := False, trace := trace ?s1 @ [Kill (pid c) SIGTERM k]\<rparr>"
  have i: "interrupted c io ?s1 = (None, ?s2)"
    using assms(1,2) by (simp add: interrupted_def handler_effect)
  have k2: "Kill (pid c) SIGTERM k \<in> set (trace ?s2)" by simp
  have dead: "\<not> child_alive s'"
    using iteration_alive [OF assms(3)] assms(1,2) by auto
  have "Kill (pid c) SIGTERM k \<in> set (trace s')"
  proof (cases "select_result io")
    case OSError
    with assms(3) i have "s' = ?s2" by (simp add: iteration_def Let_def)
    with k2 show ?thesis by simp
  next
    case (Returned ready)
    let ?d = "dispatch c io (filter (\<lambda>d. d \<in> set ready) (fds ?s2)) ?s2"
    obtain y s3 where d: "?d = (y, s3)" by (cases ?d)
    have k3: "Kill (pid c) SIGTERM k \<in> set (trace s3)"
      using dispatch_trace_mono [of ?s2 c io "filter (\<lambda>d. d \<in> set ready) (fds ?s2)"] k2 d
      by auto
    show ?thesis
    proof (cases y)
      case (Some e)
      with assms(3) i Returned d have "s' = s3" by (simp add: iteration_def Let_def)
      with k3 show ?thesis by simp
    next
      case None
      with assms(3) i Returned d have "check_child c io s3 = (x, s')"
        by (simp add: iteration_def Let_def)
      with check_child_trace_mono [of s3 c io] k3 show ?thesis by auto
    qed
  qed
  with dead show ?thesis by simp
qed

subsection \<open>Single steps of the dispatch\<close>

lemma emit_alive: "child_alive (emit e s) = child_alive s"
  by (simp add: emit_def)

lemma dispatch_master_relays:
  "master_read io = Returned r \<Longrightarrow> take 4096 r \<noteq> [] \<Longrightarrow> stdout_write io = Returned n \<Longrightarrow>
   dispatch c io (master_fd c # rest) s =
     dispatch c io rest (emit (Write (stdout_fd c) (take 4096 r)) (emit (Read (master_fd c)) s))"
  by (simp add: Let_def)

lemma dispatch_master_error:
  "master_read io = OSError \<Longrightarrow>
   dispatch c io (master_fd c # rest) s = (None, (emit (Read (master_fd c)) s)\<lparr>child_alive := False\<rparr>)"
  by simp

lemma dispatch_stdin_error:
  "master_fd c \<noteq> stdin_fd c \<Longrightarrow> stdin_read io = OSError \<Longrightarrow>
   dispatch c io (stdin_fd c # rest) s = (None, emit (Read (stdin_fd c)) s)"
  by simp

lemma dispatch_stdin_write_fails:
  "master_fd c \<noteq> stdin_fd c \<Longrightarrow> stdin_read io = Returned r \<Longrightarrow> take 4096 r \<noteq> [] \<Longrightarrow>
   master_write io = OSError \<Longrightarrow>
   dispatch c io (stdin_fd c # rest) s =
     (None, emit (Write (master_fd c) (take 4096 r)) (emit (Read (stdin_fd c)) s))"
  by (simp add: Let_def)

lemma iteration_quiet:
  "sigterm io = None \<Longrightarrow> select_result io = Returned ready \<Longrightarrow>
   iteration c io s =
     (case dispatch c io (filter (\<lambda>d. d \<in> set ready) [master_fd c, stdin_fd c])
             (emit (Select [master_fd c, stdin_fd c]) (s\<lparr>fds := [master_fd c, stdin_fd c]\<rparr>)) of
        (Some e, s3) \<Rightarrow> (Raise e, s3)
      | (None, s3) \<Rightarrow> check_child c io s3)"
  by (simp add: iteration_def interrupted_def Let_def emit_def del: filter.simps)

lemma check_child_running:
  "waitpid_nohang io = WaitPid 0 st \<Longrightarrow>
   check_child c io s = (Next, emit (Waitpid (pid c) WNOHANG (Some (WaitPid 0 st))) s)"
  by (simp add: check_child_def Let_def)

lemma relay_loop_next:
  "child_alive s \<Longrightarrow> iteration c io s = (Next, s') \<Longrightarrow>
   relay_loop c (io # rest) s = relay_loop c rest s'"
  by simp

lemma master_error_ends:
  assumes sel: "select_result io = Returned ready"
    and rdy: "master_fd c \<in> set ready"
    and err: "master_read io = OSError"
    and it: "iteration c io s = (x, s')"
  shows "x \<noteq> Next \<or> \<not> child_alive s'"
proof -
  let ?s0 = "emit (Select [master_fd c, stdin_fd c]) (s\<lparr>fds := [master_fd c, stdin_fd c]\<rparr>)"
  obtain raised s2 where i: "interrupted c io ?s0 = (raised, s2)" by (cases "interrupted c io ?s0")
  have f2: "fds s2 = [master_fd c, stdin_fd c]"
    using interrupted_fds [OF i] by (simp add: emit_def)
  show ?thesis
  proof (cases raised)
    case (Some e)
    with it i have "x = Break" by (simp add: iteration_def Let_def)
    then show ?thesis by simp
  next
    case None
    from rdy obtain tl where fl: "filter (\<lambda>d. d \<in> set ready) (fds s2) = master_fd c # tl"
      by (simp add: f2)
    from it i None sel fl dispatch_master_error [OF err, of c tl s2]
    have "check_child c io ((emit (Read (master_fd c)) s2)\<lparr>child_alive := False\<rparr>) = (x, s')"
      by (simp add: iteration_def Let_def)
    from check_child_alive [OF this] show ?thesis by auto
  qed
qed

subsection \<open>Whole iterations\<close>

text \<open>An iteration whose dispatch reaches the stdin branch and leaves it by \<open>break\<close>
  with the state \<open>f s\<close> goes on to the check of the child, in the state written out.\<close>

lemma stdin_branch_exact:
  assumes nosig: "sigterm io = None"
    and sel: "select_result io = Returned ready"
    and rdy: "stdin_fd c \<in> set ready"
    and master_ok: "master_fd c \<notin> set ready \<or>
        (master_read io = Returned r \<and> take 4096 r \<noteq> [] \<and> stdout_write io = Returned n)"
    and br: "\<And>s rest. dispatch c io (stdin_fd c # rest) s = (None, f s)"
  shows "iteration c io s =
     check_child c io
       (f (if master_fd c \<in> set ready
           then emit (Write (stdout_fd c) (take 4096 r))
                  (emit (Read (master_fd c))
                     (emit (Select [master_fd c, stdin_fd c]) (s\<lparr>fds := [master_fd c, stdin_fd c]\<rparr>)))
           else emit (Select [master_fd c, stdin_fd c]) (s\<lparr>fds := [master_fd c, stdin_fd c]\<rparr>)))"
proof -
  let ?s0 = "emit (Select [master_fd c, stdin_fd c]) (s\<lparr>fds := [master_fd c, stdin_fd c]\<rparr>)"
  show ?thesis
  proof (cases "master_fd c \<in> set ready")
    case False
    with rdy have "filter (\<lambda>d. d \<in> set ready) [master_fd c, stdin_fd c] = [stdin_fd c]" by simp
    with iteration_quiet [OF nosig sel, of c s] br [of "[]" ?s0]
    have "iteration c io s = check_child c io (f ?s0)" by simp
    with False show ?thesis by simp
  next
    case True
    with master_ok have m: "master_read io = Returned r" "take 4096 r \<noteq> []"
      "stdout_write io = Returned n" by auto
    let ?s1 = "emit (Write (stdout_fd c) (take 4096 r)) (emit (Read (master_fd c)) ?s0)"
    from True rdy
    have "filter (\<lambda>d. d \<in> set ready) [master_fd c, stdin_fd c] = [master_fd c, stdin_fd c]"
      by simp
    with iteration_quiet [OF nosig sel, of c s] dispatch_master_relays [OF m, of c "[stdin_fd c]" ?s0]
      br [of "[]" ?s1]
    have "iteration c io s = check_child c io (f ?s1)" by simp
    with True show ?thesis by simp
  qed
qed

lemma relay_loop_single:
  "child_alive s \<Longrightarrow> iteration c io s = (Next, s') \<Longrightarrow> child_alive s' \<Longrightarrow>
   relay_loop c [io] s = Running s'"
  by simp

lemma relay_loop_ends:
  assumes "child_alive s" and "fst (iteration c io s) \<noteq> Next \<or> \<not> child_alive (snd (iteration c io s))"
  shows "relay_loop c (io # rest) s =
     Ended (case fst (iteration c io s) of Raise e \<Rightarrow> Some e | _ \<Rightarrow> None) (snd (iteration c io s))"
proof -
  obtain x s1 where it: "iteration c io s = (x, s1)" by (cases "iteration c io s")
  show ?thesis
  proof (cases x)
    case Next
    with assms(2) it have "\<not> child_alive s1" by simp
    from relay_loop_dead [OF this] Next assms(1) it show ?thesis by simp
  next
    case Break
    with assms(1) it show ?thesis by simp
  next
    case (Raise e)
    with assms(1) it show ?thesis by simp
  qed
qed

lemma master_error_dead:
  assumes sel: "select_result io = Returned ready"
    and rdy: "master_fd c \<in> set ready"
    and err: "master_read io = OSError"
    and noperm: "sigterm io \<noteq> Some EPERM"
  shows "\<not> child_alive (snd (iteration c io s)) \<and>
         Read (master_fd c) \<in> set (trace (snd (iteration c io s)))"
proof -
  let ?s0 = "emit (Select [master_fd c, stdin_fd c]) (s\<lparr>fds := [master_fd c, stdin_fd c]\<rparr>)"
  obtain raised s2 where i: "interrupted c io ?s0 = (raised, s2)" by (cases "interrupted c io ?s0")
  have f2: "fds s2 = [master_fd c, stdin_fd c]"
    using interrupted_fds [OF i] by (simp add: emit_def)
  have "raised = None"
    using i noperm
    by (cases "sigterm io"; cases "the (sigterm io)")
       (auto simp: interrupted_def sigterm_handler_def Let_def)
  from rdy obtain tl where fl: "filter (\<lambda>d. d \<in> set ready) (fds s2) = master_fd c # tl"
    by (simp add: f2)
  let ?s3 = "(emit (Read (master_fd c)) s2)\<lparr>child_alive := False\<rparr>"
  from i \<open>raised = None\<close> sel fl dispatch_master_error [OF err, of c tl s2]
  have it: "iteration c io s = check_child c io ?s3"
    by (simp add: iteration_def Let_def)
  obtain x s' where cc: "check_child c io ?s3 = (x, s')" by (cases "check_child c io ?s3")
  have "\<not> child_alive s'" using check_child_alive [OF cc] by auto
  moreover have "Read (master_fd c) \<in> set (trace s')"
    using check_child_trace_mono [of ?s3 c io] cc by (auto simp: emit_def)
  ultimately show ?thesis using it cc by simp
qed

subsection \<open>Closing and the end of stdin\<close>

lemma closes_initial:
  "master_fd c \<noteq> slave_fd c \<Longrightarrow> filter (closes (master_fd c)) (trace (initial c)) = []"
  by (auto simp: initial_def)

lemma dispatch_stdin_eof:
  "master_fd c \<noteq> stdin_fd c \<Longrightarrow> stdin_read io = Returned [] \<Longrightarrow> stdin_fd c \<in> set (fds s) \<Longrightarrow>
   dispatch c io [stdin_fd c] s =
     (None, (emit (Read (stdin_fd c)) s)\<lparr>fds := remove1 (stdin_fd c) (fds s)\<rparr>)"
  by (simp add: Let_def emit_def)

lemma stdin_eof_iteration:
  assumes nosig: "sigterm io = None"
    and sel: "select_result io = Returned ready"
    and rdy: "stdin_fd c \<in> set ready"
    and distinct: "master_fd c \<noteq> stdin_fd c"
    and master_ok: "master_fd c \<notin> set ready \<or>
        (master_read io = Returned r \<and> take 4096 r \<noteq> [] \<and> stdout_write io = Returned n)"
    and eof: "stdin_read io = Returned []"
  shows "iteration c io s =
     check_child c io
       ((emit (Read (stdin_fd c))
          (if master_fd c \<in> set ready
           then emit (Write (stdout_fd c) (take 4096 r))
                  (emit (Read (master_fd c))
                     (emit (Select [master_fd c, stdin_fd c]) (s\<lparr>fds := [master_fd c, stdin_fd c]\<rparr>)))
           else emit (Select [master_fd c, stdin_fd c]) (s\<lparr>fds := [master_fd c, stdin_fd c]\<rparr>)))
        \<lparr>fds := [master_fd c]\<rparr>)"
proof -
  let ?s0 = "emit (Select [master_fd c, stdin_fd c]) (s\<lparr>fds := [master_fd c, stdin_fd c]\<rparr>)"
  have f0: "fds ?s0 = [master_fd c, stdin_fd c]" by (simp add: emit_def)
  have rm: "remove1 (stdin_fd c) [master_fd c, stdin_fd c] = [master_fd c]"
    using distinct by simp
  show ?thesis
  proof (cases "master_fd c \<in> set ready")
    case False
    with rdy have "filter (\<lambda>d. d \<in> set ready) [master_fd c, stdin_fd c] = [stdin_fd c]" by simp
    with iteration_quiet [OF nosig sel, of c s]
      dispatch_stdin_eof [OF distinct eof, of ?s0]
    have "iteration c io s =
        check_child c io ((emit (Read (stdin_fd c)) ?s0)\<lparr>fds := remove1 (stdin_fd c) (fds ?s0)\<rparr>)"
      by (simp add: f0)
    with False show ?thesis by (simp only: f0 rm if_False)
  next
    case True
    with master_ok have m: "master_read io = Returned r" "take 4096 r \<noteq> []"
      "stdout_write io = Returned n" by auto
    let ?s1 = "emit (Write (stdout_fd c) (take 4096 r)) (emit (Read (master_fd c)) ?s0)"
    have f1: "fds ?s1 = [master_fd c, stdin_fd c]" by (simp add: emit_def)
    from True rdy
    have "filter (\<lambda>d. d \<in> set ready) [master_fd c, stdin_fd c] = [master_fd c, stdin_fd c]"
      by simp
    with iteration_quiet [OF nosig sel, of c s] dispatch_master_relays [OF m, of c "[stdin_fd c]" ?s0]
      dispatch_stdin_eof [OF distinct eof, of ?s1]
    have "iteration c io s =
        check_child c io ((emit (Read (stdin_fd c)) ?s1)\<lparr>fds := remove1 (stdin_fd c) (fds ?s1)\<rparr>)"
      by (simp add: f1)
    with True show ?thesis by (simp only: f1 rm if_True)
  qed
qed

section \<open>The claims\<close>

subsection \<open>Exit code of a child that exits normally\<close>

text \<open>
  C4. If the child exits normally with code \<open>N\<close>, \<open>0 \<le> N \<le> 255\<close>, the supervisor
  exits with code \<open>N\<close>, whether the loop's non-blocking check or the final blocking wait
  obtained the status. The operating system hands out the status of a child once, so the
  run has one reaping wait, \<open>reaped_statuses t = [exit_status N]\<close>: when the loop's check
  was that wait, the wait of the \<open>finally\<close> block raises \<open>ChildProcessError\<close> and the
  pending \<open>SystemExit(N)\<close> stands. The final wait is assumed to return.
\<close>

theorem exit_code_propagation:
  assumes "0 \<le> N" and "N \<le> 255"
    and "supervisor c script cio = (r, t)"
    and "reaped_statuses t = [exit_status N]"
    and "final_wait cio \<noteq> None"
  shows "r = Exit N"
  using exit_code_of_reaped [OF assms(3) assms(4) WIFEXITED_exit_status assms(5)]
    WEXITSTATUS_exit_status [OF assms(1) assms(2)]
  by simp

text \<open>Both ways at code 7: the loop's check reaps the child in the first iteration; or
  \<open>select\<close> fails and the final wait reaps it.\<close>

theorem exit_code_propagation_witness:
  "fst (supervisor example_cfg [idle\<lparr>waitpid_nohang := WaitPid 100 (exit_status 7)\<rparr>]
          (killed\<lparr>final_wait := Some ECHILD\<rparr>)) = Exit 7 \<and>
   fst (supervisor example_cfg [idle\<lparr>select_result := OSError\<rparr>]
          (killed\<lparr>final_wait := Some (WaitPid 100 (exit_status 7))\<rparr>)) = Exit 7"
proof -
  let ?a = "supervisor example_cfg [idle\<lparr>waitpid_nohang := WaitPid 100 (exit_status 7)\<rparr>]
          (killed\<lparr>final_wait := Some ECHILD\<rparr>)"
  let ?b = "supervisor example_cfg [idle\<lparr>select_result := OSError\<rparr>]
          (killed\<lparr>final_wait := Some (WaitPid 100 (exit_status 7))\<rparr>)"
  have a: "reaped_statuses (snd ?a) = [exit_status 7]"
    by code_simp
  have b: "reaped_statuses (snd ?b) = [exit_status 7]"
    by code_simp
  have "fst ?a = Exit 7"
    by (rule exit_code_propagation [of 7 _ _ _ _ "snd ?a"]) (simp_all add: a, simp add: killed_def)
  moreover have "fst ?b = Exit 7"
    by (rule exit_code_propagation [of 7 _ _ _ _ "snd ?b"]) (simp_all add: b, simp add: killed_def)
  ultimately show ?thesis by simp
qed

subsection \<open>The environment of the child\<close>

text \<open>
  C7. The environment passed to \<open>execvpe\<close> is the parent's environment without
  \<open>CLAUDECODE\<close> and with \<open>TERM\<close> set to \<open>dumb\<close>: as a lookup table it is the
  parent's table changed at these two names only, and the entries of every other variable
  are the parent's, in the parent's order.
\<close>

theorem child_environment:
  "map_of (child_env environ) = ((map_of environ)(''CLAUDECODE'' := None))(''TERM'' \<mapsto> ''dumb'') \<and>
   filter (\<lambda>p. fst p \<noteq> ''CLAUDECODE'' \<and> fst p \<noteq> ''TERM'') (child_env environ) =
   filter (\<lambda>p. fst p \<noteq> ''CLAUDECODE'' \<and> fst p \<noteq> ''TERM'') environ \<and>
   Execvpe ''claude'' [''claude'', ''auth'', ''login''] (child_env environ)
     \<in> set (snd (child_branch c environ exec_error))"
proof (intro conjI)
  show "map_of (child_env environ) = ((map_of environ)(''CLAUDECODE'' := None))(''TERM'' \<mapsto> ''dumb'')"
    by (simp add: child_env_def update_conv' delete_conv')
  show "filter (\<lambda>p. fst p \<noteq> ''CLAUDECODE'' \<and> fst p \<noteq> ''TERM'') (child_env environ) =
   filter (\<lambda>p. fst p \<noteq> ''CLAUDECODE'' \<and> fst p \<noteq> ''TERM'') environ"
    by (rule child_env_order)
  show "Execvpe ''claude'' [''claude'', ''auth'', ''login''] (child_env environ)
     \<in> set (snd (child_branch c environ exec_error))"
    by (cases exec_error) (simp_all add: child_branch_def Let_def)
qed

subsection \<open>The cleanup sequence\<close>

text \<open>
  C6. However the relay loop is left (\<open>p\<close> is the pending exception, if any, and
  \<open>s\<close> the state at that point), the run goes on with exactly three calls: close the
  master, send SIGTERM to the child, wait for the child without \<open>WNOHANG\<close>. The three
  calls are issued whatever the first two answer, a failing close and a missing child
  included.
\<close>

theorem cleanup_always_runs:
  assumes "relay_loop c script (initial c) = Ended p s"
  shows "snd (supervisor c script cio) =
           trace s @ [Close (master_fd c) (close_result cio),
                      Kill (pid c) SIGTERM (kill_result cio),
                      Waitpid (pid c) 0 (final_wait cio)]"
  using assms by (simp add: supervisor_def cleanup_trace)

text \<open>A SIGTERM ends the loop; the close fails, the child is gone, and all three calls are
  still made.\<close>

theorem cleanup_always_runs_witness:
  "snd (supervisor example_cfg [idle\<lparr>sigterm := Some Delivered\<rparr>]
          \<lparr>close_result = OSError, kill_result = ESRCH, final_wait = Some ECHILD\<rparr>) =
     [Close 4 (Returned ()), Select [3, 0], Kill 100 15 Delivered,
      Waitpid 100 1 (Some (WaitPid 0 0)),
      Close 3 OSError, Kill 100 15 ESRCH, Waitpid 100 0 (Some ECHILD)]"
proof -
  have "relay_loop example_cfg [idle\<lparr>sigterm := Some Delivered\<rparr>] (initial example_cfg) =
      Ended None \<lparr>child_alive = False, fds = [3, 0],
        trace = [Close 4 (Returned ()), Select [3, 0], Kill 100 15 Delivered,
                 Waitpid 100 1 (Some (WaitPid 0 0))]\<rparr>"
    by code_simp
  from cleanup_always_runs [OF this] show ?thesis
    by (simp add: example_cfg_def SIGTERM_def)
qed

subsection \<open>The SIGTERM handler\<close>

text \<open>
  C9. When the handler's \<open>os.kill\<close> delivers the signal or finds no such process
  (\<open>k \<noteq> EPERM\<close>), the handler raises nothing, issues that one call, which sends
  SIGTERM, the signal it is installed for, and no other call, and clears \<open>child_alive\<close>.
  A loop whose \<open>select\<close> is interrupted this way ends with that iteration, whatever
  the rest of the iteration does, so that the cleanup follows.
\<close>

theorem sigterm_relay:
  assumes "k \<noteq> EPERM"
  shows "sigterm_handler c SIGTERM k s =
           (None, s\<lparr>child_alive := False, trace := trace s @ [Kill (pid c) SIGTERM k]\<rparr>) \<and>
         (child_alive s \<and> sigterm io = Some k \<longrightarrow>
            (\<exists>p s'. relay_loop c (io # rest) s = Ended p s' \<and> \<not> child_alive s' \<and>
                    Kill (pid c) SIGTERM k \<in> set (trace s')))"
proof (intro conjI impI)
  show "sigterm_handler c SIGTERM k s =
           (None, s\<lparr>child_alive := False, trace := trace s @ [Kill (pid c) SIGTERM k]\<rparr>)"
    using assms by (rule handler_effect)
next
  assume a: "child_alive s \<and> sigterm io = Some k"
  obtain x s1 where it: "iteration c io s = (x, s1)" by (cases "iteration c io s")
  from iteration_signalled [OF _ assms it] a
  have s1: "\<not> child_alive s1" "Kill (pid c) SIGTERM k \<in> set (trace s1)" by simp_all
  have "\<exists>p. relay_loop c (io # rest) s = Ended p s1"
  proof (cases x)
    case Next
    with a it have "relay_loop c (io # rest) s = relay_loop c rest s1" by simp
    with relay_loop_dead [OF s1(1)] show ?thesis by simp
  next
    case Break
    with a it show ?thesis by simp
  next
    case (Raise e)
    with a it show ?thesis by simp
  qed
  with s1 show "\<exists>p s'. relay_loop c (io # rest) s = Ended p s' \<and> \<not> child_alive s' \<and>
                    Kill (pid c) SIGTERM k \<in> set (trace s')" by blast
qed

theorem sigterm_relay_witness:
  "sigterm_handler example_cfg SIGTERM ESRCH (initial example_cfg) =
     (None, \<lparr>child_alive = False, fds = [],
             trace = [Close 4 (Returned ()), Kill 100 15 ESRCH]\<rparr>) \<and>
   (\<exists>p s'. relay_loop example_cfg [idle\<lparr>sigterm := Some ESRCH\<rparr>, idle] (initial example_cfg)
              = Ended p s' \<and> \<not> child_alive s' \<and> Kill 100 15 ESRCH \<in> set (trace s'))"
proof -
  have ne: "ESRCH \<noteq> EPERM" by simp
  have a: "child_alive (initial example_cfg) \<and> sigterm (idle\<lparr>sigterm := Some ESRCH\<rparr>) = Some ESRCH"
    by (simp add: initial_def)
  from sigterm_relay [OF ne, of example_cfg "initial example_cfg" "idle\<lparr>sigterm := Some ESRCH\<rparr>" "[idle]"] a
  show ?thesis by (simp add: example_cfg_def initial_def SIGTERM_def)
qed

subsection \<open>Errors while reading\<close>

text \<open>
  C10. An \<open>OSError\<close> from the read of stdin only leaves the dispatch of this
  iteration. The hypotheses say that the read is reached (no signal, stdin is ready, and
  the master, if ready as well, was relayed to stdout first) and that the child is still
  running (\<open>waitpid\<close> returns 0). Then the iteration ends in the state \<open>s'\<close> written
  out below, in which \<open>child_alive\<close> is true and the trace has grown by the
  \<open>select\<close>, the relay of the master if any, the failed read and the check of the
  child; the loop is still running after it, and any further iterations start from
  \<open>s'\<close>. In the other direction an \<open>OSError\<close> from the read of the master ends the
  loop with this iteration, at the state that iteration leaves and with no further
  iteration run; unless the handler raised, the read was issued and \<open>child_alive\<close> is
  false.
\<close>

theorem stdin_read_error_tolerated:
  assumes alive: "child_alive s"
    and nosig: "sigterm io = None"
    and sel: "select_result io = Returned ready"
    and rdy: "stdin_fd c \<in> set ready"
    and distinct: "master_fd c \<noteq> stdin_fd c"
    and master_ok: "master_fd c \<notin> set ready \<or>
        (master_read io = Returned r \<and> take 4096 r \<noteq> [] \<and> stdout_write io = Returned n)"
    and err: "stdin_read io = OSError"
    and running: "waitpid_nohang io = WaitPid 0 st"
  shows "(let s0 = emit (Select [master_fd c, stdin_fd c]) (s\<lparr>fds := [master_fd c, stdin_fd c]\<rparr>);
              s1 = (if master_fd c \<in> set ready
                    then emit (Write (stdout_fd c) (take 4096 r)) (emit (Read (master_fd c)) s0)
                    else s0);
              s' = emit (Waitpid (pid c) WNOHANG (Some (WaitPid 0 st))) (emit (Read (stdin_fd c)) s1)
          in iteration c io s = (Next, s') \<and> child_alive s' \<and>
             relay_loop c [io] s = Running s' \<and>
             relay_loop c (io # rest) s = relay_loop c rest s') \<and>
         (select_result io' = Returned ready' \<and> master_fd c \<in> set ready' \<and>
          master_read io' = OSError \<longrightarrow>
            relay_loop c (io' # rest) s =
              Ended (case fst (iteration c io' s) of Raise e \<Rightarrow> Some e | _ \<Rightarrow> None)
                    (snd (iteration c io' s)) \<and>
            (sigterm io' \<noteq> Some EPERM \<longrightarrow>
               \<not> child_alive (snd (iteration c io' s)) \<and>
               Read (master_fd c) \<in> set (trace (snd (iteration c io' s)))))"
proof (intro conjI impI)
  let ?s0 = "emit (Select [master_fd c, stdin_fd c]) (s\<lparr>fds := [master_fd c, stdin_fd c]\<rparr>)"
  let ?s1 = "if master_fd c \<in> set ready
             then emit (Write (stdout_fd c) (take 4096 r)) (emit (Read (master_fd c)) ?s0)
             else ?s0"
  let ?s' = "emit (Waitpid (pid c) WNOHANG (Some (WaitPid 0 st))) (emit (Read (stdin_fd c)) ?s1)"
  have "iteration c io s = check_child c io (emit (Read (stdin_fd c)) ?s1)"
    by (rule stdin_branch_exact [OF nosig sel rdy master_ok])
       (rule dispatch_stdin_error [OF distinct err])
  then have it: "iteration c io s = (Next, ?s')"
    using check_child_running [OF running] by simp
  have al: "child_alive ?s'" using alive by (simp add: emit_def)
  show "let s0 = ?s0; s1 = (if master_fd c \<in> set ready
                    then emit (Write (stdout_fd c) (take 4096 r)) (emit (Read (master_fd c)) s0)
                    else s0);
              s' = emit (Waitpid (pid c) WNOHANG (Some (WaitPid 0 st))) (emit (Read (stdin_fd c)) s1)
          in iteration c io s = (Next, s') \<and> child_alive s' \<and>
             relay_loop c [io] s = Running s' \<and>
             relay_loop c (io # rest) s = relay_loop c rest s'"
    unfolding Let_def
    using it al relay_loop_single [OF alive it al] relay_loop_next [OF alive it]
    by (intro conjI)
next
  assume a: "select_result io' = Returned ready' \<and> master_fd c \<in> set ready' \<and>
          master_read io' = OSError"
  obtain x s1 where it: "iteration c io' s = (x, s1)" by (cases "iteration c io' s")
  from a master_error_ends [OF _ _ _ it] have "x \<noteq> Next \<or> \<not> child_alive s1" by blast
  with it have "fst (iteration c io' s) \<noteq> Next \<or> \<not> child_alive (snd (iteration c io' s))"
    by simp
  from relay_loop_ends [OF alive this]
  show "relay_loop c (io' # rest) s =
              Ended (case fst (iteration c io' s) of Raise e \<Rightarrow> Some e | _ \<Rightarrow> None)
                    (snd (iteration c io' s))" .
next
  assume a: "select_result io' = Returned ready' \<and> master_fd c \<in> set ready' \<and>
          master_read io' = OSError"
    and np: "sigterm io' \<noteq> Some EPERM"
  from a np master_error_dead [of io' ready' c s]
  show "\<not> child_alive (snd (iteration c io' s))" by blast
next
  assume a: "select_result io' = Returned ready' \<and> master_fd c \<in> set ready' \<and>
          master_read io' = OSError"
    and np: "sigterm io' \<noteq> Some EPERM"
  from a np master_error_dead [of io' ready' c s]
  show "Read (master_fd c) \<in> set (trace (snd (iteration c io' s)))" by blast
qed

text \<open>At a run: the read of stdin fails in the first iteration and the second iteration
  takes place (its \<open>select\<close> and its check are in the trace); the read of the master
  fails in the first iteration and the second one does not take place.\<close>

theorem stdin_read_error_tolerated_witness:
  "relay_loop example_cfg [idle\<lparr>select_result := Returned [0], stdin_read := OSError\<rparr>, idle]
     (initial example_cfg) =
     Running \<lparr>child_alive = True, fds = [3, 0],
       trace = [Close 4 (Returned ()),
                Select [3, 0], Read 0, Waitpid 100 1 (Some (WaitPid 0 0)),
                Select [3, 0], Waitpid 100 1 (Some (WaitPid 0 0))]\<rparr> \<and>
   relay_loop example_cfg [idle\<lparr>select_result := Returned [3], master_read := OSError\<rparr>, idle]
     (initial example_cfg) =
     Ended None \<lparr>child_alive = False, fds = [3, 0],
       trace = [Close 4 (Returned ()),
                Select [3, 0], Read 3, Waitpid 100 1 (Some (WaitPid 0 0))]\<rparr>"
proof -
  let ?io = "idle\<lparr>select_result := Returned [0], stdin_read := OSError\<rparr>"
  let ?io' = "idle\<lparr>select_result := Returned [3], master_read := OSError\<rparr>"
  let ?s' = "\<lparr>child_alive = True, fds = [3, 0],
       trace = [Close 4 (Returned ()),
                Select [3, 0], Read 0, Waitpid 100 1 (Some (WaitPid 0 0))]\<rparr>"
  have h: "child_alive (initial example_cfg)" "sigterm ?io = None"
    "select_result ?io = Returned [0]" "stdin_fd example_cfg \<in> set [0]"
    "master_fd example_cfg \<noteq> stdin_fd example_cfg"
    "master_fd example_cfg \<notin> set [0] \<or>
        (master_read ?io = Returned [] \<and> take 4096 [] \<noteq> ([] :: string) \<and> stdout_write ?io = Returned 0)"
    "stdin_read ?io = OSError" "waitpid_nohang ?io = WaitPid 0 0"
    by (simp_all add: initial_def idle_def example_cfg_def)
  have m: "select_result ?io' = Returned [3] \<and> master_fd example_cfg \<in> set [3] \<and>
          master_read ?io' = OSError"
    by (simp add: idle_def example_cfg_def)
  note t = stdin_read_error_tolerated [OF h, of "[idle]" ?io' "[3]"]
  have s': "emit (Waitpid (pid example_cfg) WNOHANG (Some (WaitPid 0 0)))
              (emit (Read (stdin_fd example_cfg))
                 (emit (Select [master_fd example_cfg, stdin_fd example_cfg])
                    (initial example_cfg\<lparr>fds := [master_fd example_cfg, stdin_fd example_cfg]\<rparr>))) = ?s'"
    by (simp add: emit_def initial_def example_cfg_def WNOHANG_def)
  have nm: "(master_fd example_cfg \<in> set [0]) = False"
    by (simp add: example_cfg_def)
  have "relay_loop example_cfg [?io, idle] (initial example_cfg) =
      relay_loop example_cfg [idle]
        (emit (Waitpid (pid example_cfg) WNOHANG (Some (WaitPid 0 0)))
              (emit (Read (stdin_fd example_cfg))
                 (emit (Select [master_fd example_cfg, stdin_fd example_cfg])
                    (initial example_cfg\<lparr>fds := [master_fd example_cfg, stdin_fd example_cfg]\<rparr>))))"
    using t unfolding Let_def nm if_False by blast
  then have "relay_loop example_cfg [?io, idle] (initial example_cfg) =
      relay_loop example_cfg [idle] ?s'"
    unfolding s' .
  moreover have "relay_loop example_cfg [idle] ?s' =
      Running \<lparr>child_alive = True, fds = [3, 0],
       trace = [Close 4 (Returned ()),
                Select [3, 0], Read 0, Waitpid 100 1 (Some (WaitPid 0 0)),
                Select [3, 0], Waitpid 100 1 (Some (WaitPid 0 0))]\<rparr>"
    by code_simp
  moreover from t m have "relay_loop example_cfg [?io', idle] (initial example_cfg) =
      Ended (case fst (iteration example_cfg ?io' (initial example_cfg)) of Raise e \<Rightarrow> Some e | _ \<Rightarrow> None)
            (snd (iteration example_cfg ?io' (initial example_cfg)))"
    by blast
  moreover have "iteration example_cfg ?io' (initial example_cfg) =
      (Next, \<lparr>child_alive = False, fds = [3, 0],
       trace = [Close 4 (Returned ()),
                Select [3, 0], Read 3, Waitpid 100 1 (Some (WaitPid 0 0))]\<rparr>)"
    by code_simp
  ultimately show ?thesis by simp
qed

subsection \<open>A failed write to the master\<close>

text \<open>
  C2, as the code has it. When a chunk of nonzero bytes read from stdin cannot be written to
  the master, the write was attempted, the dispatch of this iteration is left by
  \<open>break\<close> with \<open>child_alive\<close> still true, and the iteration goes on with the check
  of the child, which alone decides how the iteration ends: with the child still running
  the loop continues with the next iteration. The hypotheses say that the write is
  reached, as for the read error of stdin.
\<close>

theorem master_write_failure:
  assumes alive: "child_alive s"
    and nosig: "sigterm io = None"
    and sel: "select_result io = Returned ready"
    and rdy: "stdin_fd c \<in> set ready"
    and distinct: "master_fd c \<noteq> stdin_fd c"
    and master_ok: "master_fd c \<notin> set ready \<or>
        (master_read io = Returned r \<and> take 4096 r \<noteq> [] \<and> stdout_write io = Returned n)"
    and rd: "stdin_read io = Returned r2"
    and ne: "take 4096 r2 \<noteq> []"
    and wf: "master_write io = OSError"
  shows "(\<exists>s1. child_alive s1 \<and> Write (master_fd c) (take 4096 r2) \<in> set (trace s1) \<and>
               iteration c io s = check_child c io s1) \<and>
         (waitpid_nohang io = WaitPid 0 st \<longrightarrow>
            (\<exists>s'. iteration c io s = (Next, s') \<and> child_alive s' \<and>
                  relay_loop c (io # rest) s = relay_loop c rest s'))"
proof -
  let ?f = "\<lambda>s. emit (Write (master_fd c) (take 4096 r2)) (emit (Read (stdin_fd c)) s)"
  have br: "\<And>s rest. dispatch c io (stdin_fd c # rest) s = (None, ?f s)"
    by (rule dispatch_stdin_write_fails [OF distinct rd ne wf])
  have al: "\<And>s. child_alive (?f s) = child_alive s" by (simp add: emit_def)
  have wr: "\<And>s. Write (master_fd c) (take 4096 r2) \<in> set (trace (?f s))" by (simp add: emit_def)
  have "\<exists>s0. child_alive (?f s0) = child_alive s \<and> iteration c io s = check_child c io (?f s0)"
  proof (cases "master_fd c \<in> set ready")
    case False
    let ?s0 = "emit (Select [master_fd c, stdin_fd c]) (s\<lparr>fds := [master_fd c, stdin_fd c]\<rparr>)"
    from False rdy have "filter (\<lambda>d. d \<in> set ready) [master_fd c, stdin_fd c] = [stdin_fd c]"
      by simp
    with iteration_quiet [OF nosig sel, of c s] br [of "[]" ?s0]
    have "iteration c io s = check_child c io (?f ?s0)" by simp
    moreover have "child_alive (?f ?s0) = child_alive s" by (simp add: emit_def)
    ultimately show ?thesis by blast
  next
    case True
    let ?s0 = "emit (Select [master_fd c, stdin_fd c]) (s\<lparr>fds := [master_fd c, stdin_fd c]\<rparr>)"
    from True master_ok have m: "master_read io = Returned r" "take 4096 r \<noteq> []"
      "stdout_write io = Returned n" by auto
    let ?s1 = "emit (Write (stdout_fd c) (take 4096 r)) (emit (Read (master_fd c)) ?s0)"
    from True rdy
    have "filter (\<lambda>d. d \<in> set ready) [master_fd c, stdin_fd c] = [master_fd c, stdin_fd c]"
      by simp
    with iteration_quiet [OF nosig sel, of c s]
      dispatch_master_relays [OF m, of c "[stdin_fd c]" ?s0] br [of "[]" ?s1]
    have "iteration c io s = check_child c io (?f ?s1)" by simp
    moreover have "child_alive (?f ?s1) = child_alive s" by (simp add: emit_def)
    ultimately show ?thesis by blast
  qed
  then obtain s0 where s0: "child_alive (?f s0)" "iteration c io s = check_child c io (?f s0)"
    using alive by auto
  have first: "\<exists>s1. child_alive s1 \<and> Write (master_fd c) (take 4096 r2) \<in> set (trace s1) \<and>
               iteration c io s = check_child c io s1"
    using s0 wr [of s0] by blast
  have second: "waitpid_nohang io = WaitPid 0 st \<longrightarrow>
            (\<exists>s'. iteration c io s = (Next, s') \<and> child_alive s' \<and>
                  relay_loop c (io # rest) s = relay_loop c rest s')"
  proof
    assume running: "waitpid_nohang io = WaitPid 0 st"
    let ?s' = "emit (Waitpid (pid c) WNOHANG (Some (WaitPid 0 st))) (?f s0)"
    have it: "iteration c io s = (Next, ?s')"
      using s0(2) check_child_running [OF running] by simp
    moreover have "child_alive ?s'" using s0(1) by (simp add: emit_def)
    moreover have "relay_loop c (io # rest) s = relay_loop c rest ?s'"
      using relay_loop_next [OF alive it] .
    ultimately show "\<exists>s'. iteration c io s = (Next, s') \<and> child_alive s' \<and>
                  relay_loop c (io # rest) s = relay_loop c rest s'" by blast
  qed
  from first second show ?thesis by (rule conjI)
qed

theorem master_write_failure_witness:
  "\<exists>s'. iteration example_cfg
           (idle\<lparr>select_result := Returned [0], stdin_read := Returned ''x'', master_write := OSError\<rparr>)
           (initial example_cfg) = (Next, s') \<and> child_alive s' \<and>
         relay_loop example_cfg
           [idle\<lparr>select_result := Returned [0], stdin_read := Returned ''x'', master_write := OSError\<rparr>,
            idle] (initial example_cfg) = relay_loop example_cfg [idle] s'"
proof -
  let ?io = "idle\<lparr>select_result := Returned [0], stdin_read := Returned ''x'', master_write := OSError\<rparr>"
  have h: "child_alive (initial example_cfg)" "sigterm ?io = None"
    "select_result ?io = Returned [0]" "stdin_fd example_cfg \<in> set [0]"
    "master_fd example_cfg \<noteq> stdin_fd example_cfg"
    "master_fd example_cfg \<notin> set [0] \<or>
        (master_read ?io = Returned [] \<and> take 4096 [] \<noteq> ([] :: string) \<and> stdout_write ?io = Returned 0)"
    "stdin_read ?io = Returned ''x''" "take 4096 ''x'' \<noteq> []" "master_write ?io = OSError"
    by (simp_all add: initial_def idle_def example_cfg_def)
  have w: "waitpid_nohang ?io = WaitPid 0 0" by (simp add: idle_def)
  from master_write_failure [OF h, of 0 "[idle]"] w show ?thesis by blast
qed

text \<open>
  C2 as stated, that the loop ends when the write to the master fails, does not hold: after
  the failed write of \<open>x\<close> the loop is still running, and its next iteration relays
  \<open>y\<close> from the master to stdout.
\<close>

theorem master_write_failure_counterexample:
  "relay_loop example_cfg
     [idle\<lparr>select_result := Returned [0], stdin_read := Returned ''x'', master_write := OSError\<rparr>,
      idle\<lparr>select_result := Returned [3], master_read := Returned ''y''\<rparr>]
     (initial example_cfg) =
   Running \<lparr>child_alive = True, fds = [3, 0],
     trace = [Close 4 (Returned ()),
              Select [3, 0], Read 0, Write 3 ''x'', Waitpid 100 1 (Some (WaitPid 0 0)),
              Select [3, 0], Read 3, Write 1 ''y'', Waitpid 100 1 (Some (WaitPid 0 0))]\<rparr>"
  by code_simp

subsection \<open>Exit code after the child was killed\<close>

text \<open>
  C1 says that the supervisor exits with code 1 when the child's final status is not a
  normal exit or cannot be obtained. The check inside the loop does so
  (\<open>else: sys.exit(1)\<close>), the \<open>finally\<close> block does not: it calls
  \<open>sys.exit\<close> for a normal exit only. Here a SIGTERM arrives during \<open>select\<close>, the
  handler forwards it, the child is still running at the check, the loop ends on
  \<open>child_alive\<close>, and the final wait reports the child killed by signal 15: the
  supervisor ends with code 0. It does so as well when both waits raise
  \<open>ChildProcessError\<close>.
\<close>

theorem signalled_child_exit_code:
  "supervisor example_cfg [idle\<lparr>sigterm := Some Delivered\<rparr>] killed =
     (Exit 0, [Close 4 (Returned ()), Select [3, 0], Kill 100 15 Delivered,
               Waitpid 100 1 (Some (WaitPid 0 0)),
               Close 3 (Returned ()), Kill 100 15 Delivered, Waitpid 100 0 (Some (WaitPid 100 15))]) \<and>
   \<not> WIFEXITED 15 \<and>
   supervisor example_cfg [idle\<lparr>waitpid_nohang := ECHILD\<rparr>] (killed\<lparr>final_wait := Some ECHILD\<rparr>) =
     (Exit 0, [Close 4 (Returned ()), Select [3, 0], Waitpid 100 1 (Some ECHILD),
               Close 3 (Returned ()), Kill 100 15 Delivered, Waitpid 100 0 (Some ECHILD)])"
  by code_simp

subsection \<open>Stdin after its end of stream\<close>

text \<open>
  C3 says that after a read of zero bytes from stdin the descriptor is no longer watched.
  The code removes it from \<open>fds\<close>, but \<open>fds\<close> is assigned anew at the top of every
  iteration: in the second iteration below \<open>select\<close> is again called with
  \<open>[3, 0]\<close>, and stdin (descriptor 0) is read again.
\<close>

theorem stdin_watched_after_eof:
  "relay_loop example_cfg
     [idle\<lparr>select_result := Returned [0], stdin_read := Returned []\<rparr>,
      idle\<lparr>select_result := Returned [0], stdin_read := Returned []\<rparr>]
     (initial example_cfg) =
   Running \<lparr>child_alive = True, fds = [3],
     trace = [Close 4 (Returned ()),
              Select [3, 0], Read 0, Waitpid 100 1 (Some (WaitPid 0 0)),
              Select [3, 0], Read 0, Waitpid 100 1 (Some (WaitPid 0 0))]\<rparr>"
  by code_simp

subsection \<open>The master descriptor is closed once, after the loop\<close>

text \<open>
  C5. The parent closes the master at most once, and only after the relay loop is left.
  With distinct master and slave descriptors: while the loop is running, no call so far
  closed the master; when the loop is left, the trace continues with the close of the
  master, the kill and the wait, and that close is the only close of the master in the
  whole run. An end of stream on stdin closes nothing and ends nothing: when the read of
  stdin is reached and returns no bytes while the child is running, the iteration ends in
  the state \<open>s'\<close> written out below, with \<open>child_alive\<close> true and no close of the
  master added, and the loop is still running after it.
\<close>

theorem master_closed_once:
  assumes ms: "master_fd c \<noteq> slave_fd c"
  shows "(relay_loop c script (initial c) = Running s \<longrightarrow>
            supervisor c script cio = (Relaying, trace s) \<and>
            filter (closes (master_fd c)) (trace s) = []) \<and>
         (relay_loop c script (initial c) = Ended p s \<longrightarrow>
            snd (supervisor c script cio) =
              trace s @ [Close (master_fd c) (close_result cio),
                         Kill (pid c) SIGTERM (kill_result cio),
                         Waitpid (pid c) 0 (final_wait cio)] \<and>
            filter (closes (master_fd c)) (trace s) = [] \<and>
            filter (closes (master_fd c)) (snd (supervisor c script cio)) =
              [Close (master_fd c) (close_result cio)]) \<and>
         length (filter (closes (master_fd c)) (snd (supervisor c script cio))) \<le> 1 \<and>
         (child_alive s0 \<and> sigterm io = None \<and> select_result io = Returned ready \<and>
          stdin_fd c \<in> set ready \<and> master_fd c \<noteq> stdin_fd c \<and>
          (master_fd c \<notin> set ready \<or>
             (master_read io = Returned r \<and> take 4096 r \<noteq> [] \<and> stdout_write io = Returned n)) \<and>
          stdin_read io = Returned [] \<and> waitpid_nohang io = WaitPid 0 st \<longrightarrow>
            (let a = emit (Select [master_fd c, stdin_fd c]) (s0\<lparr>fds := [master_fd c, stdin_fd c]\<rparr>);
                 b = (if master_fd c \<in> set ready
                      then emit (Write (stdout_fd c) (take 4096 r)) (emit (Read (master_fd c)) a)
                      else a);
                 s' = emit (Waitpid (pid c) WNOHANG (Some (WaitPid 0 st)))
                        ((emit (Read (stdin_fd c)) b)\<lparr>fds := [master_fd c]\<rparr>)
             in iteration c io s0 = (Next, s') \<and> child_alive s' \<and>
                filter (closes (master_fd c)) (trace s') = filter (closes (master_fd c)) (trace s0) \<and>
                relay_loop c [io] s0 = Running s' \<and>
                relay_loop c (io # rest) s0 = relay_loop c rest s'))"
proof -
  have running: "supervisor c script cio = (Relaying, trace s) \<and>
            filter (closes (master_fd c)) (trace s) = []"
    if r: "relay_loop c script (initial c) = Running s"
    using relay_loop_closes [OF r, of "master_fd c"] closes_initial [OF ms] r
    by (simp add: supervisor_def)
  have ended: "snd (supervisor c script cio) =
              trace s @ [Close (master_fd c) (close_result cio),
                         Kill (pid c) SIGTERM (kill_result cio),
                         Waitpid (pid c) 0 (final_wait cio)] \<and>
            filter (closes (master_fd c)) (trace s) = [] \<and>
            filter (closes (master_fd c)) (snd (supervisor c script cio)) =
              [Close (master_fd c) (close_result cio)]"
    if e: "relay_loop c script (initial c) = Ended p s"
  proof -
    have t: "snd (supervisor c script cio) =
              trace s @ [Close (master_fd c) (close_result cio),
                         Kill (pid c) SIGTERM (kill_result cio),
                         Waitpid (pid c) 0 (final_wait cio)]"
      using e by (simp add: supervisor_def cleanup_trace)
    have n: "filter (closes (master_fd c)) (trace s) = []"
      using relay_loop_closes [OF e, of "master_fd c"] closes_initial [OF ms] by simp
    from t n show ?thesis by simp
  qed
  have once: "length (filter (closes (master_fd c)) (snd (supervisor c script cio))) \<le> 1"
  proof (cases "relay_loop c script (initial c)")
    case (Running s1)
    have "supervisor c script cio = (Relaying, trace s1)"
      using Running by (simp add: supervisor_def)
    moreover have "filter (closes (master_fd c)) (trace s1) = []"
      using relay_loop_closes [OF Running, of "master_fd c"] closes_initial [OF ms] by simp
    ultimately show ?thesis by simp
  next
    case (Ended p1 s1)
    have "snd (supervisor c script cio) =
              trace s1 @ [Close (master_fd c) (close_result cio),
                         Kill (pid c) SIGTERM (kill_result cio),
                         Waitpid (pid c) 0 (final_wait cio)]"
      using Ended by (simp add: supervisor_def cleanup_trace)
    moreover have "filter (closes (master_fd c)) (trace s1) = []"
      using relay_loop_closes [OF Ended, of "master_fd c"] closes_initial [OF ms] by simp
    ultimately show ?thesis by simp
  qed
  have eof: "let a = emit (Select [master_fd c, stdin_fd c]) (s0\<lparr>fds := [master_fd c, stdin_fd c]\<rparr>);
                 b = (if master_fd c \<in> set ready
                      then emit (Write (stdout_fd c) (take 4096 r)) (emit (Read (master_fd c)) a)
                      else a);
                 s' = emit (Waitpid (pid c) WNOHANG (Some (WaitPid 0 st)))
                        ((emit (Read (stdin_fd c)) b)\<lparr>fds := [master_fd c]\<rparr>)
             in iteration c io s0 = (Next, s') \<and> child_alive s' \<and>
                filter (closes (master_fd c)) (trace s') = filter (closes (master_fd c)) (trace s0) \<and>
                relay_loop c [io] s0 = Running s' \<and>
                relay_loop c (io # rest) s0 = relay_loop c rest s'"
    if h: "child_alive s0 \<and> sigterm io = None \<and> select_result io = Returned ready \<and>
          stdin_fd c \<in> set ready \<and> master_fd c \<noteq> stdin_fd c \<and>
          (master_fd c \<notin> set ready \<or>
             (master_read io = Returned r \<and> take 4096 r \<noteq> [] \<and> stdout_write io = Returned n)) \<and>
          stdin_read io = Returned [] \<and> waitpid_nohang io = WaitPid 0 st"
  proof -
    let ?a = "emit (Select [master_fd c, stdin_fd c]) (s0\<lparr>fds := [master_fd c, stdin_fd c]\<rparr>)"
    let ?b = "if master_fd c \<in> set ready
              then emit (Write (stdout_fd c) (take 4096 r)) (emit (Read (master_fd c)) ?a)
              else ?a"
    let ?s' = "emit (Waitpid (pid c) WNOHANG (Some (WaitPid 0 st)))
                 ((emit (Read (stdin_fd c)) ?b)\<lparr>fds := [master_fd c]\<rparr>)"
    from h have alive: "child_alive s0" and nosig: "sigterm io = None"
      and sel: "select_result io = Returned ready" and rdy: "stdin_fd c \<in> set ready"
      and distinct: "master_fd c \<noteq> stdin_fd c"
      and master_ok: "master_fd c \<notin> set ready \<or>
             (master_read io = Returned r \<and> take 4096 r \<noteq> [] \<and> stdout_write io = Returned n)"
      and e: "stdin_read io = Returned []" and run: "waitpid_nohang io = WaitPid 0 st"
      by blast+
    have "iteration c io s0 = check_child c io ((emit (Read (stdin_fd c)) ?b)\<lparr>fds := [master_fd c]\<rparr>)"
      by (rule stdin_eof_iteration [OF nosig sel rdy distinct master_ok e])
    then have it: "iteration c io s0 = (Next, ?s')"
      using check_child_running [OF run] by simp
    have al: "child_alive ?s'" using alive by (simp add: emit_def)
    have cl: "filter (closes (master_fd c)) (trace ?s') = filter (closes (master_fd c)) (trace s0)"
      using iteration_closes [OF it, of "master_fd c"] .
    show ?thesis
      unfolding Let_def
      using it al cl relay_loop_single [OF alive it al] relay_loop_next [OF alive it]
      by (intro conjI)
  qed
  from running ended once eof show ?thesis by blast
qed

text \<open>At a run: stdin is at its end in the first iteration, the master is relayed in the
  second, the child is found to have exited with code 0 in the third. The master is closed
  once, after the last call of the loop; and after the first iteration alone the loop is
  still running, with nothing closed.\<close>

theorem master_closed_once_witness:
  "snd (supervisor example_cfg
          [idle\<lparr>select_result := Returned [0]\<rparr>,
           idle\<lparr>select_result := Returned [3], master_read := Returned ''y''\<rparr>,
           idle\<lparr>waitpid_nohang := WaitPid 100 0\<rparr>]
          (killed\<lparr>kill_result := ESRCH, final_wait := Some ECHILD\<rparr>)) =
     [Close 4 (Returned ()),
      Select [3, 0], Read 0, Waitpid 100 1 (Some (WaitPid 0 0)),
      Select [3, 0], Read 3, Write 1 ''y'', Waitpid 100 1 (Some (WaitPid 0 0)),
      Select [3, 0], Waitpid 100 1 (Some (WaitPid 100 0)),
      Close 3 (Returned ()), Kill 100 15 ESRCH, Waitpid 100 0 (Some ECHILD)] \<and>
   filter (closes 3)
     (snd (supervisor example_cfg
          [idle\<lparr>select_result := Returned [0]\<rparr>,
           idle\<lparr>select_result := Returned [3], master_read := Returned ''y''\<rparr>,
           idle\<lparr>waitpid_nohang := WaitPid 100 0\<rparr>]
          (killed\<lparr>kill_result := ESRCH, final_wait := Some ECHILD\<rparr>))) = [Close 3 (Returned ())] \<and>
   relay_loop example_cfg [idle\<lparr>select_result := Returned [0]\<rparr>] (initial example_cfg) =
     Running \<lparr>child_alive = True, fds = [3],
       trace = [Close 4 (Returned ()), Select [3, 0], Read 0, Waitpid 100 1 (Some (WaitPid 0 0))]\<rparr>"
proof -
  let ?script = "[idle\<lparr>select_result := Returned [0]\<rparr>,
           idle\<lparr>select_result := Returned [3], master_read := Returned ''y''\<rparr>,
           idle\<lparr>waitpid_nohang := WaitPid 100 0\<rparr>]"
  let ?cio = "killed\<lparr>kill_result := ESRCH, final_wait := Some ECHILD\<rparr>"
  let ?s = "\<lparr>child_alive = False, fds = [3, 0],
      trace = [Close 4 (Returned ()),
      Select [3, 0], Read 0, Waitpid 100 1 (Some (WaitPid 0 0)),
      Select [3, 0], Read 3, Write 1 ''y'', Waitpid 100 1 (Some (WaitPid 0 0)),
      Select [3, 0], Waitpid 100 1 (Some (WaitPid 100 0))]\<rparr>"
  let ?io = "idle\<lparr>select_result := Returned [0]\<rparr>"
  have ms: "master_fd example_cfg \<noteq> slave_fd example_cfg" by (simp add: example_cfg_def)
  have e: "relay_loop example_cfg ?script (initial example_cfg) = Ended (Some (SystemExit 0)) ?s"
    by code_simp
  have h: "child_alive (initial example_cfg) \<and> sigterm ?io = None \<and>
      select_result ?io = Returned [0] \<and> stdin_fd example_cfg \<in> set [0] \<and>
      master_fd example_cfg \<noteq> stdin_fd example_cfg \<and>
      (master_fd example_cfg \<notin> set [0] \<or>
         (master_read ?io = Returned [] \<and> take 4096 [] \<noteq> ([] :: string) \<and> stdout_write ?io = Returned 0)) \<and>
      stdin_read ?io = Returned [] \<and> waitpid_nohang ?io = WaitPid 0 0"
    by (simp add: initial_def idle_def example_cfg_def)
  note t = master_closed_once [OF ms, where script = ?script and cio = ?cio
      and p = "Some (SystemExit 0)" and s = ?s and ?s0.0 = "initial example_cfg" and io = ?io
      and ready = "[0]" and r = "[]" and n = 0 and st = 0 and rest = "[]"]
  have nm: "(master_fd example_cfg \<in> set [0]) = False" by (simp add: example_cfg_def)
  have s': "emit (Waitpid (pid example_cfg) WNOHANG (Some (WaitPid 0 0)))
              ((emit (Read (stdin_fd example_cfg))
                 (emit (Select [master_fd example_cfg, stdin_fd example_cfg])
                    (initial example_cfg\<lparr>fds := [master_fd example_cfg, stdin_fd example_cfg]\<rparr>)))
               \<lparr>fds := [master_fd example_cfg]\<rparr>) =
      \<lparr>child_alive = True, fds = [3],
       trace = [Close 4 (Returned ()), Select [3, 0], Read 0, Waitpid 100 1 (Some (WaitPid 0 0))]\<rparr>"
    by (simp add: emit_def initial_def example_cfg_def WNOHANG_def)
  from t e have a1: "snd (supervisor example_cfg ?script ?cio) =
      trace ?s @ [Close (master_fd example_cfg) (close_result ?cio),
                  Kill (pid example_cfg) SIGTERM (kill_result ?cio),
                  Waitpid (pid example_cfg) 0 (final_wait ?cio)]"
    and a2: "filter (closes (master_fd example_cfg)) (snd (supervisor example_cfg ?script ?cio)) =
      [Close (master_fd example_cfg) (close_result ?cio)]"
    by blast+
  from t h have "relay_loop example_cfg [?io] (initial example_cfg) =
      Running (emit (Waitpid (pid example_cfg) WNOHANG (Some (WaitPid 0 0)))
              ((emit (Read (stdin_fd example_cfg))
                 (emit (Select [master_fd example_cfg, stdin_fd example_cfg])
                    (initial example_cfg\<lparr>fds := [master_fd example_cfg, stdin_fd example_cfg]\<rparr>)))
               \<lparr>fds := [master_fd example_cfg]\<rparr>))"
    unfolding Let_def nm if_False by blast
  then have a3: "relay_loop example_cfg [?io] (initial example_cfg) =
     Running \<lparr>child_alive = True, fds = [3],
       trace = [Close 4 (Returned ()), Select [3, 0], Read 0, Waitpid 100 1 (Some (WaitPid 0 0))]\<rparr>"
    unfolding s' .
  from a1 have b1: "snd (supervisor example_cfg ?script ?cio) =
     [Close 4 (Returned ()),
      Select [3, 0], Read 0, Waitpid 100 1 (Some (WaitPid 0 0)),
      Select [3, 0], Read 3, Write 1 ''y'', Waitpid 100 1 (Some (WaitPid 0 0)),
      Select [3, 0], Waitpid 100 1 (Some (WaitPid 100 0)),
      Close 3 (Returned ()), Kill 100 15 ESRCH, Waitpid 100 0 (Some ECHILD)]"
    by (simp add: example_cfg_def killed_def SIGTERM_def)
  from a2 have b2: "filter (closes 3) (snd (supervisor example_cfg ?script ?cio)) =
      [Close 3 (Returned ())]"
    by (simp add: example_cfg_def killed_def)
  from b1 b2 a3 show ?thesis by (intro conjI)
qed

subsection \<open>A target command that cannot be run\<close>

text \<open>
  C8. In the child (\<open>os.fork\<close> returned 0), when \<open>execvpe\<close> raises, the whole run of
  that process is the list below: the message on its standard error is its last call but
  one, \<open>os._exit(1)\<close> its last, and it runs none of the supervisor's calls. To the
  parent this is a child that exited with code 1: its status passes \<open>WIFEXITED\<close> with
  \<open>WEXITSTATUS\<close> 1, the loop's check turns it into \<open>SystemExit(1)\<close> as it does any
  other normal exit, and a parent run that reaped this status ends with code 1.
\<close>

theorem exec_failure:
  assumes child: "pid c = 0"
  shows "main c environ (Some e) script cio =
           Child (ChildExit 1,
                  [Setsid, Dup2 (slave_fd c) 0, Dup2 (slave_fd c) 1, Dup2 (slave_fd c) 2,
                   Close (master_fd c) (Returned ()), Close (slave_fd c) (Returned ()),
                   Execvpe ''claude'' [''claude'', ''auth'', ''login''] (child_env environ),
                   StderrWrite (''Failed to exec claude: '' @ e @ [CHR 0x0A]), OsExit 1]) \<and>
         WIFEXITED (exit_status 1) \<and> WEXITSTATUS (exit_status 1) = 1 \<and>
         (wpid \<noteq> 0 \<and> waitpid_nohang io = WaitPid wpid (exit_status 1) \<longrightarrow>
            check_child c' io s =
              (Raise (SystemExit 1),
               (emit (Waitpid (pid c') WNOHANG (Some (WaitPid wpid (exit_status 1)))) s)
                 \<lparr>child_alive := False\<rparr>)) \<and>
         (pid c' \<noteq> 0 \<and> supervisor c' script' cio' = (r, t) \<and>
          reaped_statuses t = [exit_status 1] \<and> final_wait cio' \<noteq> None \<longrightarrow>
            main c' environ' x script' cio' = Parent (Exit 1, t))"
proof (intro conjI impI)
  show "main c environ (Some e) script cio =
           Child (ChildExit 1,
                  [Setsid, Dup2 (slave_fd c) 0, Dup2 (slave_fd c) 1, Dup2 (slave_fd c) 2,
                   Close (master_fd c) (Returned ()), Close (slave_fd c) (Returned ()),
                   Execvpe ''claude'' [''claude'', ''auth'', ''login''] (child_env environ),
                   StderrWrite (''Failed to exec claude: '' @ e @ [CHR 0x0A]), OsExit 1])"
    using child by (simp add: main_def child_branch_def Let_def)
  show "WIFEXITED (exit_status 1)" by (rule WIFEXITED_exit_status)
  show one: "WEXITSTATUS (exit_status 1) = 1" by (rule WEXITSTATUS_exit_status) simp_all
  show "check_child c' io s =
              (Raise (SystemExit 1),
               (emit (Waitpid (pid c') WNOHANG (Some (WaitPid wpid (exit_status 1)))) s)
                 \<lparr>child_alive := False\<rparr>)"
    if "wpid \<noteq> 0 \<and> waitpid_nohang io = WaitPid wpid (exit_status 1)"
    using that one WIFEXITED_exit_status [of 1] by (simp add: check_child_def Let_def)
  show "main c' environ' x script' cio' = Parent (Exit 1, t)"
    if h: "pid c' \<noteq> 0 \<and> supervisor c' script' cio' = (r, t) \<and>
          reaped_statuses t = [exit_status 1] \<and> final_wait cio' \<noteq> None"
  proof -
    from h have run: "supervisor c' script' cio' = (r, t)"
      and st: "reaped_statuses t = [exit_status 1]" and fw: "final_wait cio' \<noteq> None"
      by blast+
    from exit_code_of_reaped [OF run st WIFEXITED_exit_status fw] one
    have "r = Exit 1" by simp
    with h show ?thesis by (simp add: main_def)
  qed
qed

text \<open>At a run: in the child, \<open>execvpe\<close> raises; in the parent, the check of the first
  iteration finds the child exited with code 1.\<close>

theorem exec_failure_witness:
  "main (example_cfg\<lparr>pid := 0\<rparr>) [(''CLAUDECODE'', ''1''), (''TERM'', ''xterm''), (''HOME'', ''/root'')]
        (Some ''[Errno 2] No such file or directory'') [] killed =
     Child (ChildExit 1,
            [Setsid, Dup2 4 0, Dup2 4 1, Dup2 4 2, Close 3 (Returned ()), Close 4 (Returned ()),
             Execvpe ''claude'' [''claude'', ''auth'', ''login'']
               [(''TERM'', ''dumb''), (''HOME'', ''/root'')],
             StderrWrite (''Failed to exec claude: [Errno 2] No such file or directory'' @ [CHR 0x0A]),
             OsExit 1]) \<and>
   main example_cfg [] None [idle\<lparr>waitpid_nohang := WaitPid 100 (exit_status 1)\<rparr>]
        (killed\<lparr>kill_result := ESRCH, final_wait := Some ECHILD\<rparr>) =
     Parent (Exit 1,
             [Close 4 (Returned ()), Select [3, 0],
              Waitpid 100 1 (Some (WaitPid 100 (exit_status 1))),
              Close 3 (Returned ()), Kill 100 15 ESRCH, Waitpid 100 0 (Some ECHILD)])"
proof -
  let ?c = "example_cfg\<lparr>pid := 0\<rparr>"
  let ?script = "[idle\<lparr>waitpid_nohang := WaitPid 100 (exit_status 1)\<rparr>]"
  let ?cio = "killed\<lparr>kill_result := ESRCH, final_wait := Some ECHILD\<rparr>"
  let ?t = "[Close 4 (Returned ()), Select [3, 0],
              Waitpid 100 1 (Some (WaitPid 100 (exit_status 1))),
              Close 3 (Returned ()), Kill 100 15 ESRCH, Waitpid 100 0 (Some ECHILD)]"
  have child: "pid ?c = 0" by simp
  have sup: "supervisor example_cfg ?script ?cio = (fst (supervisor example_cfg ?script ?cio), ?t)"
    by code_simp
  have h: "pid example_cfg \<noteq> 0 \<and>
      supervisor example_cfg ?script ?cio = (fst (supervisor example_cfg ?script ?cio), ?t) \<and>
      reaped_statuses ?t = [exit_status 1] \<and> final_wait ?cio \<noteq> None"
    using sup by (simp add: example_cfg_def killed_def reaped_statuses_def WNOHANG_def)
  note t = exec_failure [OF child, where c' = example_cfg and script' = ?script and cio' = ?cio
      and r = "fst (supervisor example_cfg ?script ?cio)" and t = ?t
      and environ = "[(''CLAUDECODE'', ''1''), (''TERM'', ''xterm''), (''HOME'', ''/root'')]"
      and e = "''[Errno 2] No such file or directory''" and script = "[]" and cio = killed
      and environ' = "[]" and x = None]
  have env: "child_env [(''CLAUDECODE'', ''1''), (''TERM'', ''xterm''), (''HOME'', ''/root'')] =
      [(''TERM'', ''dumb''), (''HOME'', ''/root'')]"
    by code_simp
  from t have "main ?c [(''CLAUDECODE'', ''1''), (''TERM'', ''xterm''), (''HOME'', ''/root'')]
        (Some ''[Errno 2] No such file or directory'') [] killed =
     Child (ChildExit 1,
            [Setsid, Dup2 (slave_fd ?c) 0, Dup2 (slave_fd ?c) 1, Dup2 (slave_fd ?c) 2,
             Close (master_fd ?c) (Returned ()), Close (slave_fd ?c) (Returned ()),
             Execvpe ''claude'' [''claude'', ''auth'', ''login'']
               (child_env [(''CLAUDECODE'', ''1''), (''TERM'', ''xterm''), (''HOME'', ''/root'')]),
             StderrWrite (''Failed to exec claude: '' @ ''[Errno 2] No such file or directory'' @ [CHR 0x0A]),
             OsExit 1])"
    by blast
  then have a: "main ?c [(''CLAUDECODE'', ''1''), (''TERM'', ''xterm''), (''HOME'', ''/root'')]
        (Some ''[Errno 2] No such file or directory'') [] killed =
     Child (ChildExit 1,
            [Setsid, Dup2 4 0, Dup2 4 1, Dup2 4 2, Close 3 (Returned ()), Close 4 (Returned ()),
             Execvpe ''claude'' [''claude'', ''auth'', ''login'']
               [(''TERM'', ''dumb''), (''HOME'', ''/root'')],
             StderrWrite (''Failed to exec claude: [Errno 2] No such file or directory'' @ [CHR 0x0A]),
             OsExit 1])"
    by (simp add: env example_cfg_def)
  from t h have b: "main example_cfg [] None ?script ?cio = Parent (Exit 1, ?t)"
    by blast
  from a b show ?thesis by (intro conjI)
qed

end
